theory Spec2Isabelle
  imports Main "HOL-Library.Word"
begin

unbundle bit_operations_syntax

section \<open>Run state, request flags and the main loop (vl.c)\<close>

subsection \<open>Data\<close>

text \<open>
  Modelled from the spec: the enumeration \<open>RunState\<close> is generated from the QAPI schema
  and its declaration is not among the sources. The fifteen states are the ones the spec
  lists and the transition table of vl.c names; \<open>RUN_STATE_MAX\<close> is the count of states,
  which vl.c uses as the "no state" sentinel and as the dimension of the validity matrix.
\<close>

datatype RunState =
    RUN_STATE_DEBUG
  | RUN_STATE_INMIGRATE
  | RUN_STATE_INTERNAL_ERROR
  | RUN_STATE_IO_ERROR
  | RUN_STATE_PAUSED
  | RUN_STATE_POSTMIGRATE
  | RUN_STATE_PRELAUNCH
  | RUN_STATE_FINISH_MIGRATE
  | RUN_STATE_RESTORE_VM
  | RUN_STATE_RUNNING
  | RUN_STATE_SAVE_VM
  | RUN_STATE_SHUTDOWN
  | RUN_STATE_SUSPENDED
  | RUN_STATE_WATCHDOG
  | RUN_STATE_GUEST_PANICKED
  | RUN_STATE_MAX

text \<open>
  The integer value of an enumerator. vl.c only ever compares a state with
  \<open>RUN_STATE_MAX\<close>, which is the largest value.
\<close>

fun RunState_val :: "RunState \<Rightarrow> nat" where
  "RunState_val RUN_STATE_DEBUG = 0"
| "RunState_val RUN_STATE_INMIGRATE = 1"
| "RunState_val RUN_STATE_INTERNAL_ERROR = 2"
| "RunState_val RUN_STATE_IO_ERROR = 3"
| "RunState_val RUN_STATE_PAUSED = 4"
| "RunState_val RUN_STATE_POSTMIGRATE = 5"
| "RunState_val RUN_STATE_PRELAUNCH = 6"
| "RunState_val RUN_STATE_FINISH_MIGRATE = 7"
| "RunState_val RUN_STATE_RESTORE_VM = 8"
| "RunState_val RUN_STATE_RUNNING = 9"
| "RunState_val RUN_STATE_SAVE_VM = 10"
| "RunState_val RUN_STATE_SHUTDOWN = 11"
| "RunState_val RUN_STATE_SUSPENDED = 12"
| "RunState_val RUN_STATE_WATCHDOG = 13"
| "RunState_val RUN_STATE_GUEST_PANICKED = 14"
| "RunState_val RUN_STATE_MAX = 15"

text \<open>
  Modelled from the spec: \<open>WakeupReason\<close> is an enumeration declared in a header that is
  not among the sources. It is kept as the enumerator's integer value; the "none" value is
  0, the value of the zero-initialised static \<open>wakeup_reason\<close> and the one the test
  \<open>if (qemu_wakeup_requested())\<close> takes for "no wakeup".
\<close>

type_synonym WakeupReason = nat

definition QEMU_WAKEUP_REASON_NONE :: WakeupReason where
  "QEMU_WAKEUP_REASON_NONE = 0"

text \<open>How a call ends when it does not return normally.\<close>

datatype error =
    Assert_failed    \<comment> \<open>\<open>assert(...)\<close> failed\<close>
  | Abort            \<comment> \<open>\<open>abort()\<close>\<close>
  | Exit int         \<comment> \<open>\<open>exit(status)\<close>\<close>
  | Blocked          \<comment> \<open>\<open>qemu_mutex_lock\<close> on a mutex that is held: a sequential run never returns\<close>
  | Undefined_shift  \<comment> \<open>\<open>1 << n\<close> on an \<open>int\<close> with \<open>n\<close> negative or the result out of range\<close>
  | Null_dereference \<comment> \<open>a field is read through a null pointer\<close>
  | Division_by_zero \<comment> \<open>an integer division by 0\<close>

text \<open>
  Calls into collaborators outside vl.c (vCPU control, QAPI events, notifier lists,
  the event-loop wakeup, writes to stderr) are recorded, in call order, in a trace.
  Tracing hooks (\<open>trace_*\<close>) are left out.
\<close>

datatype vl_event =
    Ev_qemu_notify_event
  | Ev_cpu_stop_current
  | Ev_pause_all_vcpus
  | Ev_resume_all_vcpus
  | Ev_cpu_synchronize_all_states
  | Ev_cpu_synchronize_all_post_reset
  | Ev_machine_or_devices_reset
  | Ev_notify_suspend_notifiers
  | Ev_notify_wakeup_notifiers WakeupReason
  | Ev_notify_powerdown_notifiers
  | Ev_qapi_event_send_reset
  | Ev_qapi_event_send_suspend
  | Ev_qapi_event_send_shutdown
  | Ev_qapi_event_send_wakeup
  | Ev_qapi_event_send_powerdown
  | Ev_stderr_terminating_on_signal int int
  | Ev_stderr_hax_sync_failed

type_synonym RunStateTransition = "RunState \<times> RunState"

text \<open>The file-scope variables of vl.c that the run-state machine and the requests use.\<close>

record vl_state =
  current_run_state :: RunState
  vmstop_requested :: RunState
  vmstop_lock :: bool
  runstate_valid_transitions :: "RunState \<Rightarrow> RunState \<Rightarrow> bool"
  reset_requested :: int
  shutdown_requested :: int
  shutdown_signal :: int
  shutdown_pid :: int
  powerdown_requested :: int
  debug_requested :: int
  suspend_requested :: int
  wakeup_reason :: WakeupReason
  wakeup_reason_mask :: "32 word"
  no_reboot :: int
  no_shutdown :: int
  qtest_driver :: bool
  events :: "vl_event list"

definition emit :: "vl_event \<Rightarrow> vl_state \<Rightarrow> vl_state" where
  "emit e s = s\<lparr>events := events s @ [e]\<rparr>"

text \<open>Sequencing of calls that may not return: the first failure ends the run.\<close>

definition and_then :: "'e + 'a \<Rightarrow> ('a \<Rightarrow> 'e + 'b) \<Rightarrow> 'e + 'b" where
  "and_then r f = (case r of Inl e \<Rightarrow> Inl e | Inr x \<Rightarrow> f x)"

subsection \<open>The run-state machine\<close>

definition runstate_transitions_def :: "RunStateTransition list" where
  "runstate_transitions_def =
   [ (RUN_STATE_DEBUG, RUN_STATE_RUNNING),
     (RUN_STATE_DEBUG, RUN_STATE_FINISH_MIGRATE),

     (RUN_STATE_INMIGRATE, RUN_STATE_RUNNING),
     (RUN_STATE_INMIGRATE, RUN_STATE_PAUSED),

     (RUN_STATE_INTERNAL_ERROR, RUN_STATE_PAUSED),
     (RUN_STATE_INTERNAL_ERROR, RUN_STATE_FINISH_MIGRATE),

     (RUN_STATE_IO_ERROR, RUN_STATE_RUNNING),
     (RUN_STATE_IO_ERROR, RUN_STATE_FINISH_MIGRATE),

     (RUN_STATE_PAUSED, RUN_STATE_RUNNING),
     (RUN_STATE_PAUSED, RUN_STATE_FINISH_MIGRATE),

     (RUN_STATE_POSTMIGRATE, RUN_STATE_RUNNING),
     (RUN_STATE_POSTMIGRATE, RUN_STATE_FINISH_MIGRATE),

     (RUN_STATE_PRELAUNCH, RUN_STATE_RUNNING),
     (RUN_STATE_PRELAUNCH, RUN_STATE_FINISH_MIGRATE),
     (RUN_STATE_PRELAUNCH, RUN_STATE_INMIGRATE),

     (RUN_STATE_FINISH_MIGRATE, RUN_STATE_RUNNING),
     (RUN_STATE_FINISH_MIGRATE, RUN_STATE_POSTMIGRATE),

     (RUN_STATE_RESTORE_VM, RUN_STATE_RUNNING),

     (RUN_STATE_RUNNING, RUN_STATE_DEBUG),
     (RUN_STATE_RUNNING, RUN_STATE_INTERNAL_ERROR),
     (RUN_STATE_RUNNING, RUN_STATE_IO_ERROR),
     (RUN_STATE_RUNNING, RUN_STATE_PAUSED),
     (RUN_STATE_RUNNING, RUN_STATE_FINISH_MIGRATE),
     (RUN_STATE_RUNNING, RUN_STATE_RESTORE_VM),
     (RUN_STATE_RUNNING, RUN_STATE_SAVE_VM),
     (RUN_STATE_RUNNING, RUN_STATE_SHUTDOWN),
     (RUN_STATE_RUNNING, RUN_STATE_WATCHDOG),
     (RUN_STATE_RUNNING, RUN_STATE_GUEST_PANICKED),

     (RUN_STATE_SAVE_VM, RUN_STATE_RUNNING),

     (RUN_STATE_SHUTDOWN, RUN_STATE_PAUSED),
     (RUN_STATE_SHUTDOWN, RUN_STATE_FINISH_MIGRATE),

     (RUN_STATE_DEBUG, RUN_STATE_SUSPENDED),
     (RUN_STATE_RUNNING, RUN_STATE_SUSPENDED),
     (RUN_STATE_SUSPENDED, RUN_STATE_RUNNING),
     (RUN_STATE_SUSPENDED, RUN_STATE_FINISH_MIGRATE),

     (RUN_STATE_WATCHDOG, RUN_STATE_RUNNING),
     (RUN_STATE_WATCHDOG, RUN_STATE_FINISH_MIGRATE),

     (RUN_STATE_GUEST_PANICKED, RUN_STATE_RUNNING),
     (RUN_STATE_GUEST_PANICKED, RUN_STATE_FINISH_MIGRATE),

     (RUN_STATE_MAX, RUN_STATE_MAX) ]"

definition runstate_check :: "RunState \<Rightarrow> vl_state \<Rightarrow> bool" where
  "runstate_check state s = (current_run_state s = state)"

text \<open>
  The loop of \<open>runstate_init\<close>: it walks the table from its first entry and stops at the
  first entry whose \<open>from\<close> is \<open>RUN_STATE_MAX\<close>. The table ends with such an entry, so
  the walk never leaves the array (the first equation is never reached from it).
\<close>

fun runstate_init_loop ::
  "RunStateTransition list \<Rightarrow> (RunState \<Rightarrow> RunState \<Rightarrow> bool) \<Rightarrow> (RunState \<Rightarrow> RunState \<Rightarrow> bool)"
where
  "runstate_init_loop [] m = m"
| "runstate_init_loop (p # ps) m =
     (if fst p = RUN_STATE_MAX then m
      else runstate_init_loop ps (m(fst p := (m (fst p))(snd p := True))))"

definition runstate_init :: "vl_state \<Rightarrow> vl_state" where
  "runstate_init s =
     s\<lparr>runstate_valid_transitions :=
         runstate_init_loop runstate_transitions_def (\<lambda>a b. False),
       vmstop_lock := False\<rparr>"

text \<open>
  This function will abort() on invalid state transitions. The message it prints before
  \<open>abort()\<close> is not kept: the run ends there.
\<close>

definition runstate_set :: "RunState \<Rightarrow> vl_state \<Rightarrow> error + vl_state" where
  "runstate_set new_state s =
     (if \<not> RunState_val new_state < RunState_val RUN_STATE_MAX then Inl Assert_failed
      else if \<not> runstate_valid_transitions s (current_run_state s) new_state then Inl Abort
      else Inr (s\<lparr>current_run_state := new_state\<rparr>))"

definition runstate_is_running :: "vl_state \<Rightarrow> bool" where
  "runstate_is_running s = runstate_check RUN_STATE_RUNNING s"

definition runstate_needs_reset :: "vl_state \<Rightarrow> bool" where
  "runstate_needs_reset s =
     (runstate_check RUN_STATE_INTERNAL_ERROR s \<or> runstate_check RUN_STATE_SHUTDOWN s)"

text \<open>
  The static initialisers of vl.c: the state before \<open>main\<close> runs. Nothing drives the
  process through qtest, and no collaborator has been called.
\<close>

definition vl_initial :: vl_state where
  "vl_initial =
     \<lparr> current_run_state = RUN_STATE_PRELAUNCH,
       vmstop_requested = RUN_STATE_MAX,
       vmstop_lock = False,
       runstate_valid_transitions = (\<lambda>a b. False),
       reset_requested = 0,
       shutdown_requested = 0,
       shutdown_signal = - 1,
       shutdown_pid = 0,
       powerdown_requested = 0,
       debug_requested = 0,
       suspend_requested = 0,
       wakeup_reason = 0,
       wakeup_reason_mask = NOT (push_bit QEMU_WAKEUP_REASON_NONE 1),
       no_reboot = 0,
       no_shutdown = 0,
       qtest_driver = False,
       events = [] \<rparr>"

subsection \<open>The pending vmstop request and its mutex\<close>

text \<open>
  \<open>vmstop_lock\<close> is the only mutex of this part of vl.c, so \<open>qemu_mutex_lock\<close> and
  \<open>qemu_mutex_unlock\<close> are modelled for it alone, in a sequential run: the mutex is
  held or free. Locking a free mutex takes it; locking a held one never returns.
  Unlocking frees it.
\<close>

definition qemu_mutex_lock :: "vl_state \<Rightarrow> error + vl_state" where
  "qemu_mutex_lock s = (if vmstop_lock s then Inl Blocked else Inr (s\<lparr>vmstop_lock := True\<rparr>))"

definition qemu_mutex_unlock :: "vl_state \<Rightarrow> vl_state" where
  "qemu_mutex_unlock s = s\<lparr>vmstop_lock := False\<rparr>"

text \<open>
  \<open>qemu_vmstop_requested(&r)\<close>: the result is the returned flag, the value stored through
  \<open>r\<close>, and the state.
\<close>

definition qemu_vmstop_requested :: "vl_state \<Rightarrow> error + (bool \<times> RunState \<times> vl_state)" where
  "qemu_vmstop_requested s =
     and_then (qemu_mutex_lock s) (\<lambda>s1.
       let r = vmstop_requested s1;
           s2 = s1\<lparr>vmstop_requested := RUN_STATE_MAX\<rparr>;
           s3 = qemu_mutex_unlock s2
       in Inr (RunState_val r < RunState_val RUN_STATE_MAX, r, s3))"

definition qemu_system_vmstop_request_prepare :: "vl_state \<Rightarrow> error + vl_state" where
  "qemu_system_vmstop_request_prepare s = qemu_mutex_lock s"

definition qemu_system_vmstop_request :: "RunState \<Rightarrow> vl_state \<Rightarrow> vl_state" where
  "qemu_system_vmstop_request state s =
     emit Ev_qemu_notify_event (qemu_mutex_unlock (s\<lparr>vmstop_requested := state\<rparr>))"

subsection \<open>Reading the request flags\<close>

text \<open>
  Each function returns its C result together with the state it leaves.
  \<open>qemu_shutdown_requested\<close> is \<open>atomic_xchg(&shutdown_requested, 0)\<close>: the old value
  is returned and 0 is stored.
\<close>

definition qemu_shutdown_requested :: "vl_state \<Rightarrow> int \<times> vl_state" where
  "qemu_shutdown_requested s = (shutdown_requested s, s\<lparr>shutdown_requested := 0\<rparr>)"

definition qemu_kill_report :: "vl_state \<Rightarrow> vl_state" where
  "qemu_kill_report s =
     (if \<not> qtest_driver s \<and> shutdown_signal s \<noteq> - 1
      then (emit (Ev_stderr_terminating_on_signal (shutdown_signal s) (shutdown_pid s)) s)
             \<lparr>shutdown_signal := - 1\<rparr>
      else s)"

definition qemu_reset_requested :: "vl_state \<Rightarrow> int \<times> vl_state" where
  "qemu_reset_requested s = (let r = reset_requested s in (r, s\<lparr>reset_requested := 0\<rparr>))"

definition qemu_suspend_requested :: "vl_state \<Rightarrow> int \<times> vl_state" where
  "qemu_suspend_requested s = (let r = suspend_requested s in (r, s\<lparr>suspend_requested := 0\<rparr>))"

definition qemu_wakeup_requested :: "vl_state \<Rightarrow> WakeupReason \<times> vl_state" where
  "qemu_wakeup_requested s = (wakeup_reason s, s)"

definition qemu_powerdown_requested :: "vl_state \<Rightarrow> int \<times> vl_state" where
  "qemu_powerdown_requested s =
     (let r = powerdown_requested s in (r, s\<lparr>powerdown_requested := 0\<rparr>))"

definition qemu_debug_requested :: "vl_state \<Rightarrow> int \<times> vl_state" where
  "qemu_debug_requested s = (let r = debug_requested s in (r, s\<lparr>debug_requested := 0\<rparr>))"

subsection \<open>Raising requests\<close>

text \<open>
  Modelled from the spec: \<open>VMRESET_SILENT\<close> and \<open>VMRESET_REPORT\<close> are macros of a header
  that is not among the sources; they are the two values of the \<open>report\<close> argument of
  \<open>qemu_system_reset\<close>.
\<close>

definition VMRESET_SILENT :: bool where
  "VMRESET_SILENT = False"

definition VMRESET_REPORT :: bool where
  "VMRESET_REPORT = True"

text \<open>
  \<open>qemu_system_reset\<close>: the machine's own reset hook or, without one, the registered
  device reset handlers run (one trace entry for either), then the optional QAPI event.
\<close>

definition qemu_system_reset :: "bool \<Rightarrow> vl_state \<Rightarrow> vl_state" where
  "qemu_system_reset report s =
     (let s1 = emit Ev_machine_or_devices_reset s;
          s2 = (if report then emit Ev_qapi_event_send_reset s1 else s1)
      in emit Ev_cpu_synchronize_all_post_reset s2)"

definition qemu_system_reset_request :: "vl_state \<Rightarrow> vl_state" where
  "qemu_system_reset_request s =
     (let s1 = (if no_reboot s \<noteq> 0 then s\<lparr>shutdown_requested := 1\<rparr>
                else s\<lparr>reset_requested := 1\<rparr>)
      in emit Ev_qemu_notify_event (emit Ev_cpu_stop_current s1))"

definition qemu_system_suspend :: "vl_state \<Rightarrow> error + vl_state" where
  "qemu_system_suspend s =
     and_then (runstate_set RUN_STATE_SUSPENDED
                 (emit Ev_notify_suspend_notifiers (emit Ev_pause_all_vcpus s)))
       (\<lambda>s1. Inr (emit Ev_qapi_event_send_suspend s1))"

definition qemu_system_suspend_request :: "vl_state \<Rightarrow> vl_state" where
  "qemu_system_suspend_request s =
     (if runstate_check RUN_STATE_SUSPENDED s then s
      else emit Ev_qemu_notify_event (emit Ev_cpu_stop_current (s\<lparr>suspend_requested := 1\<rparr>)))"

definition qemu_system_wakeup_request :: "WakeupReason \<Rightarrow> vl_state \<Rightarrow> error + vl_state" where
  "qemu_system_wakeup_request reason s =
     (if \<not> runstate_check RUN_STATE_SUSPENDED s then Inr s
      else if \<not> bit (wakeup_reason_mask s) reason then Inr s
      else and_then (runstate_set RUN_STATE_RUNNING s)
             (\<lambda>s1. Inr (emit Ev_qemu_notify_event (s1\<lparr>wakeup_reason := reason\<rparr>))))"

definition qemu_system_shutdown_request :: "vl_state \<Rightarrow> vl_state" where
  "qemu_system_shutdown_request s = emit Ev_qemu_notify_event (s\<lparr>shutdown_requested := 1\<rparr>)"

definition qemu_system_killed :: "int \<Rightarrow> int \<Rightarrow> vl_state \<Rightarrow> vl_state" where
  "qemu_system_killed signal pid s =
     qemu_system_shutdown_request (s\<lparr>shutdown_signal := signal, shutdown_pid := pid, no_shutdown := 0\<rparr>)"

definition qemu_system_powerdown :: "vl_state \<Rightarrow> vl_state" where
  "qemu_system_powerdown s = emit Ev_notify_powerdown_notifiers (emit Ev_qapi_event_send_powerdown s)"

definition qemu_system_powerdown_request :: "vl_state \<Rightarrow> vl_state" where
  "qemu_system_powerdown_request s = emit Ev_qemu_notify_event (s\<lparr>powerdown_requested := 1\<rparr>)"

definition qemu_system_debug_request :: "vl_state \<Rightarrow> vl_state" where
  "qemu_system_debug_request s = emit Ev_qemu_notify_event (s\<lparr>debug_requested := 1\<rparr>)"

subsection \<open>The main loop\<close>

text \<open>
  \<open>vm_stop\<close> is a function of another file (cpus.c) that is not among the sources. It is a
  parameter of the model: any function from the target state and the state of vl.c to a
  new state, or to the way the call fails (it may reach \<open>runstate_set\<close>). Its integer
  result is ignored by every caller here.

  \<open>main_loop_should_exit\<close> is a sequence of seven \<open>if\<close> statements, one per request.
  Each is a definition of its own, in source order; the third one is the only one with a
  \<open>return\<close> inside, so it yields the flag "return true now".
\<close>

type_synonym vm_stop_fn = "RunState \<Rightarrow> vl_state \<Rightarrow> error + vl_state"

definition should_exit_debug :: "vm_stop_fn \<Rightarrow> vl_state \<Rightarrow> error + vl_state" where
  "should_exit_debug vm_stop s =
     (let (r, s1) = qemu_debug_requested s
      in if r \<noteq> 0 then vm_stop RUN_STATE_DEBUG s1 else Inr s1)"

definition should_exit_suspend :: "vl_state \<Rightarrow> error + vl_state" where
  "should_exit_suspend s =
     (let (r, s1) = qemu_suspend_requested s
      in if r \<noteq> 0 then qemu_system_suspend s1 else Inr s1)"

definition should_exit_shutdown :: "vm_stop_fn \<Rightarrow> vl_state \<Rightarrow> error + (bool \<times> vl_state)" where
  "should_exit_shutdown vm_stop s =
     (let (r, s1) = qemu_shutdown_requested s
      in if r \<noteq> 0 then
           (let s2 = emit Ev_qapi_event_send_shutdown (qemu_kill_report s1)
            in if no_shutdown s2 \<noteq> 0
               then and_then (vm_stop RUN_STATE_SHUTDOWN s2) (\<lambda>s3. Inr (False, s3))
               else Inr (True, s2))
         else Inr (False, s1))"

definition should_exit_reset :: "vl_state \<Rightarrow> error + vl_state" where
  "should_exit_reset s =
     (let (r, s1) = qemu_reset_requested s
      in if r \<noteq> 0 then
           (let s2 = emit Ev_resume_all_vcpus
                       (qemu_system_reset VMRESET_REPORT
                          (emit Ev_cpu_synchronize_all_states (emit Ev_pause_all_vcpus s1)))
            in if runstate_needs_reset s2 then runstate_set RUN_STATE_PAUSED s2 else Inr s2)
         else Inr s1)"

definition should_exit_wakeup :: "vl_state \<Rightarrow> vl_state" where
  "should_exit_wakeup s =
     (let (r, s1) = qemu_wakeup_requested s
      in if r \<noteq> 0 then
           (let s2 = qemu_system_reset VMRESET_SILENT
                       (emit Ev_cpu_synchronize_all_states (emit Ev_pause_all_vcpus s1));
                s3 = emit (Ev_notify_wakeup_notifiers (wakeup_reason s2)) s2;
                s4 = s3\<lparr>wakeup_reason := QEMU_WAKEUP_REASON_NONE\<rparr>
            in emit Ev_qapi_event_send_wakeup (emit Ev_resume_all_vcpus s4))
         else s1)"

definition should_exit_powerdown :: "vl_state \<Rightarrow> vl_state" where
  "should_exit_powerdown s =
     (let (r, s1) = qemu_powerdown_requested s
      in if r \<noteq> 0 then qemu_system_powerdown s1 else s1)"

definition should_exit_vmstop :: "vm_stop_fn \<Rightarrow> vl_state \<Rightarrow> error + vl_state" where
  "should_exit_vmstop vm_stop s =
     and_then (qemu_vmstop_requested s)
       (\<lambda>(b, r, s1). if b then vm_stop r s1 else Inr s1)"

definition main_loop_should_exit :: "vm_stop_fn \<Rightarrow> vl_state \<Rightarrow> error + (bool \<times> vl_state)" where
  "main_loop_should_exit vm_stop s =
     and_then (should_exit_debug vm_stop s) (\<lambda>s1.
     and_then (should_exit_suspend s1) (\<lambda>s2.
     and_then (should_exit_shutdown vm_stop s2) (\<lambda>(ret, s3).
       if ret then Inr (True, s3)
       else
     and_then (should_exit_reset s3) (\<lambda>s4.
     and_then (should_exit_vmstop vm_stop (should_exit_powerdown (should_exit_wakeup s4))) (\<lambda>s5.
       Inr (False, s5))))))"

text \<open>
  The \<open>do ... while (!main_loop_should_exit())\<close> loop of \<open>main_loop\<close>. The loop has no
  bound, so the model counts iterations down from a fuel: \<open>None\<close> means that the loop was
  still running when the fuel ran out. \<open>main_loop_wait\<close> (another file) is a parameter:
  given the \<open>nonblocking\<close> argument and the state, it returns its integer result and the
  state it leaves, in which asynchronous sources may have raised requests. \<open>accel\<close> stands
  for \<open>kvm_enabled() || xen_enabled() || hax_enabled()\<close>.
\<close>

type_synonym main_loop_wait_fn = "bool \<Rightarrow> vl_state \<Rightarrow> int \<times> vl_state"

fun main_loop_do ::
  "nat \<Rightarrow> vm_stop_fn \<Rightarrow> main_loop_wait_fn \<Rightarrow> bool \<Rightarrow> int \<Rightarrow> vl_state \<Rightarrow> (error + vl_state) option"
where
  "main_loop_do 0 vm_stop main_loop_wait accel last_io s = None"
| "main_loop_do (Suc fuel) vm_stop main_loop_wait accel last_io s =
     (let nonblocking = (\<not> accel \<and> last_io > 0);
          (last_io', s1) = main_loop_wait nonblocking s
      in case main_loop_should_exit vm_stop s1 of
           Inl e \<Rightarrow> Some (Inl e)
         | Inr (ret, s2) \<Rightarrow>
             if ret then Some (Inr s2)
             else main_loop_do fuel vm_stop main_loop_wait accel last_io' s2)"

text \<open>
  \<open>main_loop\<close>: \<open>hax_sync_vcpus\<close> is the result of the call of that name; a negative
  result makes \<open>main_loop\<close> return before the first iteration. The profiling
  statements under \<open>CONFIG_PROFILER\<close> are left out.
\<close>

definition main_loop ::
  "nat \<Rightarrow> vm_stop_fn \<Rightarrow> main_loop_wait_fn \<Rightarrow> bool \<Rightarrow> int \<Rightarrow> vl_state \<Rightarrow> (error + vl_state) option"
where
  "main_loop fuel vm_stop main_loop_wait accel hax_sync_vcpus s =
     (if hax_sync_vcpus < 0 then Some (Inr (emit Ev_stderr_hax_sync_failed s))
      else main_loop_do fuel vm_stop main_loop_wait accel 0 s)"

subsection \<open>The -smp option\<close>





subsection \<open>Concrete runs\<close>

text \<open>
  Modelled from the spec: one instance of the collaborator \<open>vm_stop\<close>, for running the
  model on concrete inputs. The spec describes it as the "stop" transition: when the
  machine is running, the vCPUs are paused and the run state is set to the target through
  \<open>runstate_set\<close>; otherwise the run state stays as it is.
\<close>

definition vm_stop_transition :: vm_stop_fn where
  "vm_stop_transition state s =
     (if runstate_is_running s then runstate_set state (emit Ev_pause_all_vcpus s) else Inr s)"

text \<open>
  Modelled from the spec: one instance of the collaborator \<open>main_loop_wait\<close>, for running
  the model on concrete inputs. The wait comes back with no I/O done (result 0) and no
  asynchronous source has raised a request: the state is as it was.
\<close>

definition main_loop_wait_idle :: main_loop_wait_fn where
  "main_loop_wait_idle nonblocking s = (0, s)"

text \<open>
  A run that leaves a wakeup pending: after start-up the machine is started, suspended,
  and then woken with the reason of value 1.
\<close>

definition woken_from_suspend :: "error + vl_state" where
  "woken_from_suspend =
     and_then (runstate_set RUN_STATE_RUNNING (runstate_init vl_initial)) (\<lambda>s1.
     and_then (runstate_set RUN_STATE_SUSPENDED s1) (\<lambda>s2.
       qemu_system_wakeup_request 1 s2))"

section \<open>The ranchu board (hw/arm/ranchu.c)\<close>

subsection \<open>Constants and the static maps\<close>

definition MAX_ANDROID_EMULATORS :: int where
  "MAX_ANDROID_EMULATORS = 64"

definition ANDROID_CONSOLE_BASEPORT :: int where
  "ANDROID_CONSOLE_BASEPORT = 5554"

definition NUM_VIRTIO_TRANSPORTS :: int where
  "NUM_VIRTIO_TRANSPORTS = 32"

definition NUM_IRQS :: int where
  "NUM_IRQS = 128"

definition GIC_FDT_IRQ_TYPE_SPI :: "32 word" where
  "GIC_FDT_IRQ_TYPE_SPI = 0"

definition GIC_FDT_IRQ_TYPE_PPI :: "32 word" where
  "GIC_FDT_IRQ_TYPE_PPI = 1"

definition GIC_FDT_IRQ_FLAGS_EDGE_LO_HI :: "32 word" where
  "GIC_FDT_IRQ_FLAGS_EDGE_LO_HI = 1"

definition GIC_FDT_IRQ_FLAGS_LEVEL_HI :: "32 word" where
  "GIC_FDT_IRQ_FLAGS_LEVEL_HI = 4"

definition GIC_FDT_IRQ_PPI_CPU_START :: nat where
  "GIC_FDT_IRQ_PPI_CPU_START = 8"

definition GIC_FDT_IRQ_PPI_CPU_WIDTH :: nat where
  "GIC_FDT_IRQ_PPI_CPU_WIDTH = 8"

datatype ranchu_device =
    RANCHU_FLASH
  | RANCHU_MEM
  | RANCHU_CPUPERIPHS
  | RANCHU_GIC_DIST
  | RANCHU_GIC_CPU
  | RANCHU_UART
  | RANCHU_GF_FB
  | RANCHU_GF_BATTERY
  | RANCHU_GF_AUDIO
  | RANCHU_GF_EVDEV
  | RANCHU_ANDROID_PIPE
  | RANCHU_MMIO

type_synonym hwaddr = "64 word"

record MemMapEntry =
  base :: hwaddr
  size_m :: hwaddr

text \<open>Addresses and sizes of the components, in the order of the initialiser.\<close>

fun memmap :: "ranchu_device \<Rightarrow> MemMapEntry" where
  "memmap RANCHU_FLASH = \<lparr>base = 0, size_m = 0x8000000\<rparr>"
| "memmap RANCHU_CPUPERIPHS = \<lparr>base = 0x8000000, size_m = 0x20000\<rparr>"
| "memmap RANCHU_GIC_DIST = \<lparr>base = 0x8000000, size_m = 0x10000\<rparr>"
| "memmap RANCHU_GIC_CPU = \<lparr>base = 0x8010000, size_m = 0x10000\<rparr>"
| "memmap RANCHU_UART = \<lparr>base = 0x9000000, size_m = 0x1000\<rparr>"
| "memmap RANCHU_GF_FB = \<lparr>base = 0x9010000, size_m = 0x100\<rparr>"
| "memmap RANCHU_GF_BATTERY = \<lparr>base = 0x9020000, size_m = 0x1000\<rparr>"
| "memmap RANCHU_GF_AUDIO = \<lparr>base = 0x9030000, size_m = 0x100\<rparr>"
| "memmap RANCHU_GF_EVDEV = \<lparr>base = 0x9040000, size_m = 0x1000\<rparr>"
| "memmap RANCHU_MMIO = \<lparr>base = 0xa000000, size_m = 0x200\<rparr>"
| "memmap RANCHU_ANDROID_PIPE = \<lparr>base = 0xa010000, size_m = 0x2000\<rparr>"
| "memmap RANCHU_MEM = \<lparr>base = 0x40000000, size_m = 30 * 1024 * 1024 * 1024\<rparr>"

text \<open>Slots without an initialiser are 0.\<close>

fun irqmap :: "ranchu_device \<Rightarrow> int" where
  "irqmap RANCHU_UART = 1"
| "irqmap RANCHU_GF_FB = 2"
| "irqmap RANCHU_GF_BATTERY = 3"
| "irqmap RANCHU_GF_AUDIO = 4"
| "irqmap RANCHU_GF_EVDEV = 5"
| "irqmap RANCHU_ANDROID_PIPE = 6"
| "irqmap RANCHU_MMIO = 16"
| "irqmap _ = 0"

text \<open>
  The address range of an entry, \<open>[base, base + size)\<close>, as a set of addresses. No entry
  reaches the end of the 64-bit address space, so the sum is taken over the naturals.
\<close>

definition range_of :: "MemMapEntry \<Rightarrow> nat set" where
  "range_of e = {unat (base e) ..< unat (base e) + unat (size_m e)}"

subsection \<open>Formatting\<close>

text \<open>The digit characters; only ever applied to a value below 16.\<close>

definition hex_digit :: "nat \<Rightarrow> char" where
  "hex_digit d = ''0123456789abcdef'' ! d"

text \<open>\<open>%x\<close> of an unsigned value: lower case, no padding.\<close>

function hex_of_nat :: "nat \<Rightarrow> string" where
  "hex_of_nat n = (if n < 16 then [hex_digit n] else hex_of_nat (n div 16) @ [hex_digit (n mod 16)])"
  by pat_completeness auto
termination
  by (relation "measure id") auto

declare hex_of_nat.simps [simp del]

function dec_of_nat :: "nat \<Rightarrow> string" where
  "dec_of_nat n = (if n < 10 then [hex_digit n] else dec_of_nat (n div 10) @ [hex_digit (n mod 10)])"
  by pat_completeness auto
termination
  by (relation "measure id") auto

declare dec_of_nat.simps [simp del]

text \<open>\<open>%d\<close> of an \<open>int\<close>.\<close>

definition printf_d :: "int \<Rightarrow> string" where
  "printf_d i = (if i < 0 then ''-'' @ dec_of_nat (nat (- i)) else dec_of_nat (nat i))"

text \<open>\<open>%PRIx64\<close> of a \<open>hwaddr\<close>.\<close>

definition printf_x64 :: "hwaddr \<Rightarrow> string" where
  "printf_x64 a = hex_of_nat (unat a)"

text \<open>The NUL byte, and \<open>strlen\<close> of the C string that starts at an offset of a buffer.\<close>

definition NUL :: char where
  "NUL = CHR 0x00"

definition strlen_at :: "string \<Rightarrow> nat \<Rightarrow> nat" where
  "strlen_at buf off = length (takeWhile (\<lambda>c. c \<noteq> NUL) (drop off buf))"

subsection \<open>State, collaborators and the trace\<close>

record arm_boot_info =
  ram_size :: hwaddr
  kernel_filename :: "string option"
  kernel_cmdline :: "string option"
  initrd_filename :: "string option"
  nb_cpus :: int
  board_id :: int
  loader_start :: hwaddr

text \<open>
  The fields of \<open>MachineState\<close> that \<open>ranchu_init\<close> reads, with the prefix \<open>m_\<close> to keep
  them apart from the fields of the boot descriptor.
\<close>

record MachineState =
  m_ram_size :: hwaddr
  m_cpu_model :: "string option"
  m_kernel_filename :: "string option"
  m_kernel_cmdline :: "string option"
  m_initrd_filename :: "string option"

text \<open>
  Modelled from the spec: the names of the power-state-coordination function identifiers
  (\<open>QEMU_PSCI_*\<close>), macros of a header that is not among the sources. Their values are
  given by the collaborators below.
\<close>

datatype psci_fn =
    QEMU_PSCI_0_2_FN_CPU_OFF
  | QEMU_PSCI_0_2_FN64_CPU_SUSPEND
  | QEMU_PSCI_0_2_FN64_CPU_ON
  | QEMU_PSCI_0_2_FN64_MIGRATE
  | QEMU_PSCI_0_2_FN_CPU_SUSPEND
  | QEMU_PSCI_0_2_FN_CPU_ON
  | QEMU_PSCI_0_2_FN_MIGRATE
  | QEMU_PSCI_0_1_FN_CPU_SUSPEND
  | QEMU_PSCI_0_1_FN_CPU_OFF
  | QEMU_PSCI_0_1_FN_CPU_ON
  | QEMU_PSCI_0_1_FN_MIGRATE

text \<open>
  What the collaborators outside ranchu.c answer; the model takes them as parameters.
  \<open>create_device_tree\<close> is the size of the new tree, or \<open>None\<close> for a NULL result.
  \<open>cpu_class_by_name\<close> gives the class name of a CPU model, or \<open>None\<close> for NULL.
  \<open>psci_version\<close>, \<open>feature_aarch64\<close> and \<open>dtb_compatible\<close> are what an ARM CPU
  object reports once it exists; \<open>has_reset_cbar\<close> is whether \<open>object_property_find\<close> finds
  \<open>"reset-cbar"\<close>. \<open>chardev_opens\<close> tells whether \<open>qemu_chr_new_from_opts\<close> opens the
  console socket on a port without error, \<open>qemu2_adb_server_init\<close> whether the ADB
  server starts on a port. \<open>phandle_start\<close> is the first value of
  \<open>qemu_fdt_alloc_phandle\<close>, \<open>android_base_port0\<close> the global of that name on entry.
  \<open>deposit32 value start length fieldval\<close> is the bit-field helper of that name.
\<close>

record board_env =
  create_device_tree :: "int option"
  kvm_enabled :: bool
  kvm_irqchip_in_kernel :: bool
  psci_version :: int
  feature_aarch64 :: bool
  psci_value :: "psci_fn \<Rightarrow> 32 word"
  cpu_class_by_name :: "string \<Rightarrow> string option"
  has_reset_cbar :: bool
  dtb_compatible :: string
  chardev_opens :: "int \<Rightarrow> bool"
  qemu2_adb_server_init :: "int \<Rightarrow> bool"
  phandle_start :: "32 word"
  android_base_port0 :: int
  deposit32 :: "32 word \<Rightarrow> nat \<Rightarrow> nat \<Rightarrow> 32 word \<Rightarrow> 32 word"

text \<open>
  Every call into a collaborator (device tree, QOM objects, qdev and sysbus, memory
  regions, the monitor, the boot loader, the diagnostics) is recorded in call order.
  A CPU object is named by the value of the loop variable \<open>n\<close> that created it, an
  interrupt line \<open>pic[i]\<close> by its index \<open>i\<close>.
\<close>

datatype board_event =
    Error_report string
  | Fprintf_stderr string
  | Printf_console_ports int int
  | Create_device_tree
  | Fdt_alloc_phandle "32 word"
  | Fdt_add_subnode string
  | Fdt_setprop_string string string string
  | Fdt_setprop_cell string string "32 word"
  | Fdt_setprop_cells string string "32 word list"
  | Fdt_setprop_sized_cells string string "(nat \<times> hwaddr) list"
  | Fdt_setprop string string string
  | Object_new int string
  | Object_property_set_bool int bool string
  | Object_property_set_int int hwaddr string
  | Memory_region_init_ram string hwaddr
  | Vmstate_register_ram_global
  | Memory_region_add_subregion hwaddr
  | Qdev_create string
  | Qdev_prop_set_uint32 string "32 word"
  | Qdev_init_nofail
  | Sysbus_mmio_map nat hwaddr
  | Qdev_connect_gpio_out int int int
  | Sysbus_connect_irq int int
  | Sysbus_create_simple string hwaddr int
  | Chardev_new int
  | Chardev_delete int
  | Monitor_init int
  | Arm_load_kernel arm_boot_info

text \<open>
  The \<open>VirtBoardInfo\<close> fields that are written (\<open>vbi_*\<close>), the counter behind
  \<open>qemu_fdt_alloc_phandle\<close>, the global \<open>android_base_port\<close>, and the trace.
\<close>

record board_state =
  trace :: "board_event list"
  next_phandle :: "32 word"
  android_base_port :: int
  vbi_smp_cpus :: int
  vbi_fdt_size :: int
  vbi_clock_phandle :: "32 word"
  vbi_bootinfo :: "arm_boot_info option"

type_synonym board_result = "(error \<times> board_state) + board_state"

definition calls :: "board_event list \<Rightarrow> board_state \<Rightarrow> board_state" where
  "calls es s = s\<lparr>trace := trace s @ es\<rparr>"

text \<open>
  The indices of the CPU objects that a list of calls creates, in call order.
\<close>

definition cpus_of :: "board_event list \<Rightarrow> int list" where
  "cpus_of es = [n. Object_new n class_name \<leftarrow> es]"

text \<open>
  Modelled from the spec: \<open>qemu_get_cpu\<close> is a function of a file that is not part of
  the sources under verification. It returns the CPU object with the
  given index, or NULL when there is none. The CPU objects of the machine are the ones
  that \<open>ranchu_init\<close> creates, so the model looks the index up among the objects
  created so far; \<open>None\<close> is NULL. The casts \<open>ARM_CPU\<close> and \<open>DEVICE\<close> keep a NULL.
\<close>

definition qemu_get_cpu :: "int \<Rightarrow> board_state \<Rightarrow> int option" where
  "qemu_get_cpu index s = (if index \<in> set (cpus_of (trace s)) then Some index else None)"

text \<open>
  Modelled from the spec: \<open>qemu_fdt_alloc_phandle\<close> is a function of a file that is not
  among the sources. It returns a unique integer, monotonically increasing and never
  reused.
\<close>

definition qemu_fdt_alloc_phandle :: "board_state \<Rightarrow> 32 word \<times> board_state" where
  "qemu_fdt_alloc_phandle s =
     (next_phandle s,
      calls [Fdt_alloc_phandle (next_phandle s)] (s\<lparr>next_phandle := next_phandle s + 1\<rparr>))"

subsection \<open>Counting loops\<close>

text \<open>\<open>for (i = lo; i < n; i++) body\<close>\<close>

function for_up :: "int \<Rightarrow> int \<Rightarrow> (int \<Rightarrow> 's \<Rightarrow> 's) \<Rightarrow> 's \<Rightarrow> 's" where
  "for_up i n body s = (if i < n then for_up (i + 1) n body (body i s) else s)"
  by pat_completeness auto
termination
  by (relation "measure (\<lambda>(i, n, body, s). nat (n - i))") auto

declare for_up.simps [simp del]

text \<open>\<open>for (i = hi; i >= 0; i--) body\<close>\<close>

function for_down :: "int \<Rightarrow> (int \<Rightarrow> 's \<Rightarrow> 's) \<Rightarrow> 's \<Rightarrow> 's" where
  "for_down i body s = (if i \<ge> 0 then for_down (i - 1) body (body i s) else s)"
  by pat_completeness auto
termination
  by (relation "measure (\<lambda>(i, body, s). nat (i + 1))") auto

declare for_down.simps [simp del]

text \<open>\<open>for (i = lo; i < n; i++) body\<close> where the body may end the run.\<close>

function for_up_exit ::
  "int \<Rightarrow> int \<Rightarrow> (int \<Rightarrow> 's \<Rightarrow> 'e + 's) \<Rightarrow> 's \<Rightarrow> 'e + 's" where
  "for_up_exit i n body s =
     (if i < n then
        (case body i s of Inl e \<Rightarrow> Inl e | Inr s' \<Rightarrow> for_up_exit (i + 1) n body s')
      else Inr s)"
  by pat_completeness auto
termination
  by (relation "measure (\<lambda>(i, n, body, s). nat (n - i))") auto

declare for_up_exit.simps [simp del]

subsection \<open>Building the device tree\<close>

text \<open>
  The \<open>if (kvm_enabled())\<close> block of \<open>create_fdt\<close>. It starts with
  \<open>armcpu = ARM_CPU(qemu_get_cpu(0))\<close> and, after adding the node, reads
  \<open>armcpu->psci_version\<close>: with no CPU object of index 0 this reads through a null
  pointer. With one, \<open>psci_version\<close> and \<open>feature_aarch64\<close> are what that object reports.
\<close>

definition create_fdt_psci :: "board_env \<Rightarrow> board_state \<Rightarrow> board_result" where
  "create_fdt_psci env s =
     (let armcpu = qemu_get_cpu 0 s;
          s1 = calls [Fdt_add_subnode ''/psci''] s
      in case armcpu of
           None \<Rightarrow> Inl (Null_dereference, s1)
         | Some cpu \<Rightarrow>
            (let (s2, cpu_suspend_fn, cpu_off_fn, cpu_on_fn, migrate_fn) =
                   (if psci_version env = 2 then
                      (calls [Fdt_setprop ''/psci'' ''compatible''
                                (''arm,psci-0.2'' @ [NUL] @ ''arm,psci'' @ [NUL])] s1,
                       if feature_aarch64 env
                       then (QEMU_PSCI_0_2_FN64_CPU_SUSPEND, QEMU_PSCI_0_2_FN_CPU_OFF,
                             QEMU_PSCI_0_2_FN64_CPU_ON, QEMU_PSCI_0_2_FN64_MIGRATE)
                       else (QEMU_PSCI_0_2_FN_CPU_SUSPEND, QEMU_PSCI_0_2_FN_CPU_OFF,
                             QEMU_PSCI_0_2_FN_CPU_ON, QEMU_PSCI_0_2_FN_MIGRATE))
                    else
                      (calls [Fdt_setprop_string ''/psci'' ''compatible'' ''arm,psci''] s1,
                       QEMU_PSCI_0_1_FN_CPU_SUSPEND, QEMU_PSCI_0_1_FN_CPU_OFF,
                       QEMU_PSCI_0_1_FN_CPU_ON, QEMU_PSCI_0_1_FN_MIGRATE))
             in Inr (calls
                  [Fdt_setprop_string ''/psci'' ''method'' ''hvc'',
                   Fdt_setprop_cell ''/psci'' ''cpu_suspend'' (psci_value env cpu_suspend_fn),
                   Fdt_setprop_cell ''/psci'' ''cpu_off'' (psci_value env cpu_off_fn),
                   Fdt_setprop_cell ''/psci'' ''cpu_on'' (psci_value env cpu_on_fn),
                   Fdt_setprop_cell ''/psci'' ''migrate'' (psci_value env migrate_fn)] s2)))"

definition create_fdt :: "board_env \<Rightarrow> board_state \<Rightarrow> board_result" where
  "create_fdt env s =
     (case create_device_tree env of
        None \<Rightarrow>
          Inl (Exit 1, calls [Create_device_tree, Error_report ''create_device_tree() failed''] s)
      | Some sz \<Rightarrow>
          (let s1 = calls [Create_device_tree] (s\<lparr>vbi_fdt_size := sz\<rparr>);
               s2 = calls
                 [Fdt_setprop_string ''/'' ''compatible'' ''ranchu'',
                  Fdt_setprop_cell ''/'' ''#address-cells'' 0x2,
                  Fdt_setprop_cell ''/'' ''#size-cells'' 0x2,
                  Fdt_add_subnode ''/firmware'',
                  Fdt_add_subnode ''/firmware/android'',
                  Fdt_setprop_string ''/firmware/android'' ''compatible'' ''android,firmware'',
                  Fdt_setprop_string ''/firmware/android'' ''hardware'' ''ranchu'',
                  Fdt_add_subnode ''/chosen'',
                  Fdt_add_subnode ''/memory'',
                  Fdt_setprop_string ''/memory'' ''device_type'' ''memory''] s1;
               (ph, s3) = qemu_fdt_alloc_phandle s2;
               s4 = calls
                 [Fdt_add_subnode ''/apb-pclk'',
                  Fdt_setprop_string ''/apb-pclk'' ''compatible'' ''fixed-clock'',
                  Fdt_setprop_cell ''/apb-pclk'' ''#clock-cells'' 0x0,
                  Fdt_setprop_cell ''/apb-pclk'' ''clock-frequency'' 24000000,
                  Fdt_setprop_string ''/apb-pclk'' ''clock-output-names'' ''clk24mhz'',
                  Fdt_setprop_cell ''/apb-pclk'' ''phandle'' ph] (s3\<lparr>vbi_clock_phandle := ph\<rparr>)
           in if kvm_enabled env then create_fdt_psci env s4 else Inr s4))"

text \<open>
  \<open>(1 << vbi->smp_cpus) - 1\<close> is computed on \<open>int\<close>: the shift is defined for a count
  from 0 to 30 only.
\<close>

definition fdt_add_timer_nodes :: "board_env \<Rightarrow> board_state \<Rightarrow> board_result" where
  "fdt_add_timer_nodes env s =
     (if vbi_smp_cpus s < 0 \<or> vbi_smp_cpus s > 30 then Inl (Undefined_shift, s)
      else
        (let irqflags = deposit32 env GIC_FDT_IRQ_FLAGS_EDGE_LO_HI
                          GIC_FDT_IRQ_PPI_CPU_START GIC_FDT_IRQ_PPI_CPU_WIDTH
                          (word_of_int (2 ^ nat (vbi_smp_cpus s) - 1))
         in Inr (calls
              [Fdt_add_subnode ''/timer'',
               Fdt_setprop_string ''/timer'' ''compatible'' ''arm,armv7-timer'',
               Fdt_setprop_cells ''/timer'' ''interrupts''
                 [GIC_FDT_IRQ_TYPE_PPI, 13, irqflags,
                  GIC_FDT_IRQ_TYPE_PPI, 14, irqflags,
                  GIC_FDT_IRQ_TYPE_PPI, 11, irqflags,
                  GIC_FDT_IRQ_TYPE_PPI, 10, irqflags]] s)))"

text \<open>
  The body of the loop of \<open>fdt_add_cpu_nodes\<close>, for the loop variable \<open>cpu\<close>. The loop
  runs over the indices below \<open>vbi->smp_cpus\<close>, whose CPU objects the loop of
  \<open>ranchu_init\<close> has created before, so \<open>qemu_get_cpu(cpu)\<close> is such an object here (and
  in the wiring loop of \<open>create_gic\<close>).
\<close>

definition fdt_add_cpu_node :: "board_env \<Rightarrow> int \<Rightarrow> board_state \<Rightarrow> board_state" where
  "fdt_add_cpu_node env cpu s =
     (let nodename = ''/cpus/cpu@'' @ printf_d cpu
      in calls
           ([Fdt_add_subnode nodename,
             Fdt_setprop_string nodename ''device_type'' ''cpu'',
             Fdt_setprop_string nodename ''compatible'' (dtb_compatible env)]
            @ (if vbi_smp_cpus s > 1
               then [Fdt_setprop_string nodename ''enable-method'' ''psci''] else [])
            @ [Fdt_setprop_cell nodename ''reg'' (word_of_int cpu)]) s)"

definition fdt_add_cpu_nodes :: "board_env \<Rightarrow> board_state \<Rightarrow> board_state" where
  "fdt_add_cpu_nodes env s =
     (let s1 = calls
                 [Fdt_add_subnode ''/cpus'',
                  Fdt_setprop_cell ''/cpus'' ''#address-cells'' 0x1,
                  Fdt_setprop_cell ''/cpus'' ''#size-cells'' 0x0] s
      in for_down (vbi_smp_cpus s1 - 1) (fdt_add_cpu_node env) s1)"

definition fdt_add_gic_node :: "board_state \<Rightarrow> board_state" where
  "fdt_add_gic_node s =
     (let (gic_phandle, s1) = qemu_fdt_alloc_phandle s
      in calls
           [Fdt_setprop_cell ''/'' ''interrupt-parent'' gic_phandle,
            Fdt_add_subnode ''/intc'',
            Fdt_setprop_string ''/intc'' ''compatible'' ''arm,cortex-a15-gic'',
            Fdt_setprop_cell ''/intc'' ''#interrupt-cells'' 3,
            Fdt_setprop ''/intc'' ''interrupt-controller'' [],
            Fdt_setprop_sized_cells ''/intc'' ''reg''
              [(2, base (memmap RANCHU_GIC_DIST)), (2, size_m (memmap RANCHU_GIC_DIST)),
               (2, base (memmap RANCHU_GIC_CPU)), (2, size_m (memmap RANCHU_GIC_CPU))],
            Fdt_setprop_cell ''/intc'' ''phandle'' gic_phandle] s1)"

subsection \<open>Creating the devices\<close>

text \<open>
  The body of the wiring loop of \<open>create_gic\<close>. The second loop of that function fills
  \<open>pic[i]\<close> with input line \<open>i\<close> of the interrupt controller for every \<open>i\<close> below
  \<open>NUM_IRQS\<close>; the trace names a line by that index.
\<close>

definition create_gic_wire :: "int \<Rightarrow> board_state \<Rightarrow> board_state" where
  "create_gic_wire i s =
     (let ppibase = NUM_IRQS + i * 32
      in calls
           [Qdev_connect_gpio_out i 0 (ppibase + 30),
            Qdev_connect_gpio_out i 1 (ppibase + 27),
            Sysbus_connect_irq i i] s)"

definition create_gic :: "board_env \<Rightarrow> int \<Rightarrow> board_state \<Rightarrow> board_state" where
  "create_gic env smp_cpus s =
     (let gictype = (if kvm_irqchip_in_kernel env then ''kvm-arm-gic'' else ''arm_gic'');
          s1 = calls
                 [Qdev_create gictype,
                  Qdev_prop_set_uint32 ''revision'' 2,
                  Qdev_prop_set_uint32 ''num-cpu'' (word_of_int smp_cpus),
                  Qdev_prop_set_uint32 ''num-irq'' (word_of_int (NUM_IRQS + 32)),
                  Qdev_init_nofail,
                  Sysbus_mmio_map 0 (base (memmap RANCHU_GIC_DIST)),
                  Sysbus_mmio_map 1 (base (memmap RANCHU_GIC_CPU))] s;
          s2 = for_up 0 smp_cpus create_gic_wire s1
      in fdt_add_gic_node s2)"

text \<open>
  \<open>create_simple_device\<close>. \<open>compat_strs\<close> (the argument \<open>compat\<close>) and \<open>clocks\<close> are the character arrays the caller
  passes, with their NUL bytes; a NULL \<open>clocks\<close> is the empty array, which is never read
  since \<open>num_clocks\<close> is then 0.
\<close>

definition create_simple_device ::
  "ranchu_device \<Rightarrow> string \<Rightarrow> string \<Rightarrow> int \<Rightarrow> string \<Rightarrow> int \<Rightarrow> board_state \<Rightarrow> board_state"
where
  "create_simple_device devid sysbus_name compat_strs num_compat_strings clocks num_clocks s =
     (let irq = irqmap devid;
          base = base (memmap devid);
          size = size_m (memmap devid);
          compat_sz = for_up 0 num_compat_strings
                        (\<lambda>i sz. sz + int (strlen_at compat_strs (nat sz)) + 1) 0;
          clocks_sz = for_up 0 num_clocks
                        (\<lambda>i sz. sz + int (strlen_at clocks (nat sz)) + 1) 0;
          nodename = ''/'' @ sysbus_name @ ''@'' @ printf_x64 base
      in calls
           ([Sysbus_create_simple sysbus_name base irq,
             Fdt_add_subnode nodename,
             Fdt_setprop nodename ''compatible'' (take (nat compat_sz) compat_strs),
             Fdt_setprop_sized_cells nodename ''reg'' [(2, base), (2, size)]]
            @ (if irq \<noteq> 0
               then [Fdt_setprop_cells nodename ''interrupts''
                       [GIC_FDT_IRQ_TYPE_SPI, word_of_int irq, GIC_FDT_IRQ_FLAGS_LEVEL_HI]]
               else [])
            @ (if num_clocks \<noteq> 0
               then [Fdt_setprop_cells nodename ''clocks''
                       [vbi_clock_phandle s, vbi_clock_phandle s],
                     Fdt_setprop nodename ''clock-names'' (take (nat clocks_sz) clocks)]
               else [])) s)"

text \<open>The bodies of the two loops of \<open>create_virtio_devices\<close>, for the loop variable \<open>i\<close>.\<close>

definition create_virtio_transport :: "int \<Rightarrow> board_state \<Rightarrow> board_state" where
  "create_virtio_transport i s =
     (let size = size_m (memmap RANCHU_MMIO);
          irq = irqmap RANCHU_MMIO + i;
          base = base (memmap RANCHU_MMIO) + word_of_int i * size
      in calls [Sysbus_create_simple ''virtio-mmio'' base irq] s)"

definition create_virtio_node :: "int \<Rightarrow> board_state \<Rightarrow> board_state" where
  "create_virtio_node i s =
     (let size = size_m (memmap RANCHU_MMIO);
          irq = irqmap RANCHU_MMIO + i;
          base = base (memmap RANCHU_MMIO) + word_of_int i * size;
          nodename = ''/virtio_mmio@'' @ printf_x64 base
      in calls
           [Fdt_add_subnode nodename,
            Fdt_setprop_string nodename ''compatible'' ''virtio,mmio'',
            Fdt_setprop_sized_cells nodename ''reg'' [(2, base), (2, size)],
            Fdt_setprop_cells nodename ''interrupts''
              [GIC_FDT_IRQ_TYPE_SPI, word_of_int irq, GIC_FDT_IRQ_FLAGS_EDGE_LO_HI]] s)"

text \<open>
  Note that we have to create the transports in forwards order so that command line
  devices are inserted lowest address first, and then add dtb nodes in reverse order so
  that they appear in the finished device tree lowest address first.
\<close>

definition create_virtio_devices :: "board_state \<Rightarrow> board_state" where
  "create_virtio_devices s =
     for_down (NUM_VIRTIO_TRANSPORTS - 1) create_virtio_node
       (for_up 0 NUM_VIRTIO_TRANSPORTS create_virtio_transport s)"

subsection \<open>The console and ADB ports\<close>

text \<open>
  \<open>try_to_create_console_chardev\<close>: the character device, named in the trace by its
  port, or NULL.
\<close>

definition try_to_create_console_chardev :: "board_env \<Rightarrow> int \<Rightarrow> board_state \<Rightarrow> bool \<times> board_state"
where
  "try_to_create_console_chardev env portno s =
     (if chardev_opens env portno then (True, calls [Chardev_new portno] s) else (False, s))"

text \<open>
  The loop of \<open>initialize_console_and_adb\<close>, on the number of tries that are left; when
  none is left, the statements after the loop end the process.
\<close>

fun console_and_adb_loop :: "board_env \<Rightarrow> nat \<Rightarrow> int \<Rightarrow> board_state \<Rightarrow> board_result" where
  "console_and_adb_loop env 0 baseport s =
     Inl (Exit 1,
          calls [Error_report (''it seems too many emulator instances are running ''
                               @ ''on this machine. Aborting'' @ [CHR 0x0A])] s)"
| "console_and_adb_loop env (Suc tries) baseport s =
     (let (chr, s1) = try_to_create_console_chardev env baseport s
      in if \<not> chr then console_and_adb_loop env tries (baseport + 2) s1
         else if \<not> qemu2_adb_server_init env (baseport + 1)
         then console_and_adb_loop env tries (baseport + 2) (calls [Chardev_delete baseport] s1)
         else Inr ((calls [Monitor_init baseport,
                           Printf_console_ports baseport (baseport + 1)] s1)
                     \<lparr>android_base_port := baseport\<rparr>))"

definition initialize_console_and_adb :: "board_env \<Rightarrow> board_state \<Rightarrow> board_result" where
  "initialize_console_and_adb env s =
     (let baseport = (if android_base_port s > ANDROID_CONSOLE_BASEPORT
                      then android_base_port s else ANDROID_CONSOLE_BASEPORT)
      in console_and_adb_loop env (nat MAX_ANDROID_EMULATORS) baseport s)"

subsection \<open>Board construction\<close>

text \<open>The body of the CPU loop of \<open>ranchu_init\<close>, for the loop variable \<open>n\<close>.\<close>

definition ranchu_init_cpu :: "board_env \<Rightarrow> string \<Rightarrow> int \<Rightarrow> board_state \<Rightarrow> board_result" where
  "ranchu_init_cpu env cpu_model n s =
     (case cpu_class_by_name env cpu_model of
        None \<Rightarrow>
          Inl (Exit 1, calls [Fprintf_stderr (''Unable to find CPU definition'' @ [CHR 0x0A])] s)
      | Some class_name \<Rightarrow>
          Inr (calls
                 ([Object_new n class_name]
                  @ (if n > 0 then [Object_property_set_bool n True ''start-powered-off''] else [])
                  @ (if has_reset_cbar env
                     then [Object_property_set_int n (base (memmap RANCHU_CPUPERIPHS)) ''reset-cbar'']
                     else [])
                  @ [Object_property_set_bool n True ''realized'']) s))"

text \<open>The state on entry: nothing has been called yet.\<close>

definition board_entry :: "board_env \<Rightarrow> board_state" where
  "board_entry env =
     \<lparr> trace = [],
       next_phandle = phandle_start env,
       android_base_port = android_base_port0 env,
       vbi_smp_cpus = 0,
       vbi_fdt_size = 0,
       vbi_clock_phandle = 0,
       vbi_bootinfo = None \<rparr>"

text \<open>
  \<open>ranchu_init\<close>, from the state on entry. \<open>smp_cpus\<close> is the global of that name, the
  requested number of CPUs. The accessor \<open>get_dtb\<close> of the boot descriptor is the
  constant function \<open>ranchu_dtb\<close> and is not a field of the model.
\<close>

definition ranchu_init :: "board_env \<Rightarrow> MachineState \<Rightarrow> int \<Rightarrow> board_result" where
  "ranchu_init env machine smp_cpus =
     (let cpu_model = (case m_cpu_model machine of None \<Rightarrow> ''cortex-a57'' | Some m \<Rightarrow> m);
          s0 = (board_entry env)\<lparr>vbi_smp_cpus := smp_cpus\<rparr>
      in if m_ram_size machine > size_m (memmap RANCHU_MEM)
         then Inl (Exit 1, calls [Error_report ''ranchu: cannot model more than 30GB RAM''] s0)
         else
           and_then (create_fdt env s0) (\<lambda>s1.
           and_then (fdt_add_timer_nodes env s1) (\<lambda>s2.
           and_then (for_up_exit 0 smp_cpus (ranchu_init_cpu env cpu_model) s2) (\<lambda>s3.
             let s4 = fdt_add_cpu_nodes env s3;
                 s5 = calls
                        [Memory_region_init_ram ''ranchu.ram'' (m_ram_size machine),
                         Vmstate_register_ram_global,
                         Memory_region_add_subregion (base (memmap RANCHU_MEM))] s4;
                 s6 = create_gic env smp_cpus s5;
                 s7 = create_simple_device RANCHU_UART ''pl011''
                        (''arm,pl011'' @ [NUL] @ ''arm,primecell'' @ [NUL]) 2
                        (''uartclk'' @ [NUL] @ ''apb_pclk'' @ [NUL]) 2 s6;
                 s8 = create_simple_device RANCHU_GF_FB ''goldfish_fb''
                        (''generic,goldfish-fb'' @ [NUL]) 1 [] 0 s7;
                 s9 = create_simple_device RANCHU_GF_BATTERY ''goldfish_battery''
                        (''generic,goldfish-battery'' @ [NUL]) 1 [] 0 s8;
                 s10 = create_simple_device RANCHU_GF_AUDIO ''goldfish_audio''
                        (''generic,goldfish-audio'' @ [NUL]) 1 [] 0 s9;
                 s11 = create_simple_device RANCHU_GF_EVDEV ''goldfish-events''
                        (''generic,goldfish-events-keypad'' @ [NUL]) 1 [] 0 s10;
                 s12 = create_simple_device RANCHU_ANDROID_PIPE ''android_pipe''
                        (''generic,android-pipe'' @ [NUL]) 1 [] 0 s11;
                 s13 = create_virtio_devices s12
             in and_then (initialize_console_and_adb env s13) (\<lambda>s14.
                  let bootinfo =
                        \<lparr> ram_size = m_ram_size machine,
                          kernel_filename = m_kernel_filename machine,
                          kernel_cmdline = m_kernel_cmdline machine,
                          initrd_filename = m_initrd_filename machine,
                          nb_cpus = smp_cpus,
                          board_id = - 1,
                          loader_start = base (memmap RANCHU_MEM) \<rparr>
                  in Inr (calls [Arm_load_kernel bootinfo]
                            (s14\<lparr>vbi_bootinfo := Some bootinfo\<rparr>)))))))"

subsection \<open>Observations on a run\<close>

text \<open>
  The calls that create a part of the machine: the device tree and its nodes, CPU
  objects, the RAM region, qdev and sysbus devices.
\<close>

fun is_creation :: "board_event \<Rightarrow> bool" where
  "is_creation Create_device_tree = True"
| "is_creation (Fdt_add_subnode path) = True"
| "is_creation (Object_new n class_name) = True"
| "is_creation (Memory_region_init_ram name sz) = True"
| "is_creation (Qdev_create name) = True"
| "is_creation (Sysbus_create_simple name addr irq) = True"
| "is_creation _ = False"

text \<open>The calls on QOM objects; \<open>ranchu_init\<close> makes them on CPU objects only.\<close>

fun is_object_call :: "board_event \<Rightarrow> bool" where
  "is_object_call (Object_new n class_name) = True"
| "is_object_call (Object_property_set_bool n v name) = True"
| "is_object_call (Object_property_set_int n v name) = True"
| "is_object_call _ = False"

text \<open>The creating calls of a state's trace, in call order.\<close>

definition created :: "board_state \<Rightarrow> board_event list" where
  "created s = filter is_creation (trace s)"

text \<open>The object calls of a state's trace, in call order.\<close>

definition object_calls :: "board_state \<Rightarrow> board_event list" where
  "object_calls s = filter is_object_call (trace s)"

text \<open>The object calls that one iteration of the CPU loop makes, for a known CPU class.\<close>

definition cpu_calls :: "board_env \<Rightarrow> string \<Rightarrow> int \<Rightarrow> board_event list" where
  "cpu_calls env class_name n =
     [Object_new n class_name]
     @ (if n > 0 then [Object_property_set_bool n True ''start-powered-off''] else [])
     @ (if has_reset_cbar env
        then [Object_property_set_int n (base (memmap RANCHU_CPUPERIPHS)) ''reset-cbar'']
        else [])
     @ [Object_property_set_bool n True ''realized'']"

text \<open>The base address of transport slot \<open>i\<close>, as both loops of \<open>create_virtio_devices\<close> compute it.\<close>

definition virtio_base :: "int \<Rightarrow> hwaddr" where
  "virtio_base i = base (memmap RANCHU_MMIO) + word_of_int i * size_m (memmap RANCHU_MMIO)"

text \<open>The device-tree calls for the node of transport slot \<open>i\<close>.\<close>

definition virtio_node_calls :: "int \<Rightarrow> board_event list" where
  "virtio_node_calls i =
     [Fdt_add_subnode (''/virtio_mmio@'' @ printf_x64 (virtio_base i)),
      Fdt_setprop_string (''/virtio_mmio@'' @ printf_x64 (virtio_base i)) ''compatible'' ''virtio,mmio'',
      Fdt_setprop_sized_cells (''/virtio_mmio@'' @ printf_x64 (virtio_base i)) ''reg''
        [(2, virtio_base i), (2, size_m (memmap RANCHU_MMIO))],
      Fdt_setprop_cells (''/virtio_mmio@'' @ printf_x64 (virtio_base i)) ''interrupts''
        [GIC_FDT_IRQ_TYPE_SPI, word_of_int (irqmap RANCHU_MMIO + i), GIC_FDT_IRQ_FLAGS_EDGE_LO_HI]]"

text \<open>The CPU model \<open>ranchu_init\<close> uses: the machine's, or the default.\<close>

definition the_cpu_model :: "MachineState \<Rightarrow> string" where
  "the_cpu_model machine = (case m_cpu_model machine of None \<Rightarrow> ''cortex-a57'' | Some m \<Rightarrow> m)"

text \<open>The state in which a run ends, whether it returns or exits.\<close>

definition final_state :: "board_result \<Rightarrow> board_state" where
  "final_state r = (case r of Inl (e, s) \<Rightarrow> s | Inr s \<Rightarrow> s)"

text \<open>
  What a list of calls creates: the paths of the device-tree nodes added, and address
  and interrupt line of the sysbus devices of a given type; each in call order.
\<close>

definition subnodes_of :: "board_event list \<Rightarrow> string list" where
  "subnodes_of es = [path. Fdt_add_subnode path \<leftarrow> es]"

definition devices_of :: "string \<Rightarrow> board_event list \<Rightarrow> (hwaddr \<times> int) list" where
  "devices_of name es = [(addr, irq). Sysbus_create_simple name' addr irq \<leftarrow> es, name' = name]"

text \<open>The same for the trace of a state.\<close>

definition fdt_subnodes :: "board_state \<Rightarrow> string list" where
  "fdt_subnodes s = subnodes_of (trace s)"

definition cpu_objects :: "board_state \<Rightarrow> int list" where
  "cpu_objects s = cpus_of (trace s)"

definition sysbus_devices :: "string \<Rightarrow> board_state \<Rightarrow> (hwaddr \<times> int) list" where
  "sysbus_devices name s = devices_of name (trace s)"

text \<open>The added nodes whose path lies under a parent path, in the order they were added.\<close>

definition children_of :: "string \<Rightarrow> board_state \<Rightarrow> string list" where
  "children_of parent s =
     [path \<leftarrow> fdt_subnodes s. take (length parent + 1) path = parent @ ''/'']"

text \<open>
  One set of collaborators, for running the model on concrete inputs: software
  emulation (no KVM), a device tree that is allocated, the default CPU model known, both
  console ports free at the first try, and \<open>deposit32\<close> replacing \<open>length\<close> bits of
  \<open>value\<close> from bit \<open>start\<close> on by \<open>fieldval\<close>.
\<close>

definition tcg_env :: board_env where
  "tcg_env =
     \<lparr> create_device_tree = Some 0x100000,
       kvm_enabled = False,
       kvm_irqchip_in_kernel = False,
       psci_version = 0,
       feature_aarch64 = True,
       psci_value = (\<lambda>f. 0),
       cpu_class_by_name = (\<lambda>m. if m = ''cortex-a57'' then Some ''cortex-a57-arm-cpu'' else None),
       has_reset_cbar = True,
       dtb_compatible = ''arm,arm-v8'',
       chardev_opens = (\<lambda>p. True),
       qemu2_adb_server_init = (\<lambda>p. True),
       phandle_start = 0x8000,
       android_base_port0 = 5554,
       deposit32 = (\<lambda>v start len field.
          (v AND NOT (push_bit start (mask len))) OR (push_bit start field AND push_bit start (mask len))) \<rparr>"

text \<open>A machine with a given RAM size and every other option left unset.\<close>

definition machine_of_ram :: "hwaddr \<Rightarrow> MachineState" where
  "machine_of_ram sz =
     \<lparr> m_ram_size = sz, m_cpu_model = None, m_kernel_filename = None,
       m_kernel_cmdline = None, m_initrd_filename = None \<rparr>"

section \<open>Properties of the run-state machine\<close>

lemma runstate_init_loop_iff:
  "runstate_init_loop ps m f t =
     (m f t \<or> (f, t) \<in> set (takeWhile (\<lambda>p. fst p \<noteq> RUN_STATE_MAX) ps))"
proof (induction ps arbitrary: m)
  case Nil
  show ?case by simp
next
  case (Cons p ps)
  show ?case
  proof (cases "fst p = RUN_STATE_MAX")
    case True
    then show ?thesis by simp
  next
    case False
    then show ?thesis
      by (cases p) (auto simp: Cons.IH)
  qed
qed

lemma takeWhile_not_MAX:
  "f \<noteq> RUN_STATE_MAX \<Longrightarrow>
   (f, t) \<in> set (takeWhile (\<lambda>p. fst p \<noteq> RUN_STATE_MAX) runstate_transitions_def)
     \<longleftrightarrow> (f, t) \<in> set runstate_transitions_def"
  by (simp add: runstate_transitions_def_def)

lemma runstate_valid_transitions_init:
  "f \<noteq> RUN_STATE_MAX \<Longrightarrow>
   runstate_valid_transitions (runstate_init s0) f t \<longleftrightarrow> (f, t) \<in> set runstate_transitions_def"
  by (simp add: runstate_init_def runstate_init_loop_iff takeWhile_not_MAX)

lemma RunState_val_less_MAX:
  "RunState_val t < 15 \<longleftrightarrow> t \<noteq> RUN_STATE_MAX"
  by (cases t) simp_all

text \<open>
  C1. After \<open>runstate_init\<close> has built the validity matrix from the table, and for valid
  states \<open>f\<close> and \<open>t\<close> (neither is the sentinel \<open>RUN_STATE_MAX\<close>): when the current state
  is \<open>f\<close>, \<open>runstate_set t\<close> returns with the current state equal to \<open>t\<close> (and nothing
  else changed) if the pair \<open>(f, t)\<close> is in the table, and ends in \<open>abort()\<close> if it is not.
\<close>

theorem runstate_set_follows_table:
  assumes "runstate_valid_transitions s = runstate_valid_transitions (runstate_init s0)"
    and "current_run_state s = f"
    and "f \<noteq> RUN_STATE_MAX" and "t \<noteq> RUN_STATE_MAX"
  shows "((f, t) \<in> set runstate_transitions_def \<longrightarrow>
            runstate_set t s = Inr (s\<lparr>current_run_state := t\<rparr>) \<and>
            runstate_check t (s\<lparr>current_run_state := t\<rparr>))
       \<and> ((f, t) \<notin> set runstate_transitions_def \<longrightarrow> runstate_set t s = Inl Abort)"
proof -
  have v: "runstate_valid_transitions s f t \<longleftrightarrow> (f, t) \<in> set runstate_transitions_def"
    using assms(1,3) by (simp add: runstate_valid_transitions_init)
  have lt: "RunState_val t < 15"
    using assms(4) by (simp add: RunState_val_less_MAX)
  show ?thesis
    using v lt assms(2) by (simp add: runstate_set_def runstate_check_def)
qed

text \<open>
  C1 at a concrete input: from \<open>RUN_STATE_PRELAUNCH\<close>, the state at start-up, the
  transition to \<open>RUN_STATE_RUNNING\<close> is in the table and succeeds; the one to
  \<open>RUN_STATE_PAUSED\<close> is not and aborts.
\<close>

theorem runstate_set_follows_table_witness:
  "(RUN_STATE_PRELAUNCH, RUN_STATE_RUNNING) \<in> set runstate_transitions_def
   \<and> runstate_set RUN_STATE_RUNNING (runstate_init vl_initial)
       = Inr ((runstate_init vl_initial)\<lparr>current_run_state := RUN_STATE_RUNNING\<rparr>)
   \<and> (RUN_STATE_PRELAUNCH, RUN_STATE_PAUSED) \<notin> set runstate_transitions_def
   \<and> runstate_set RUN_STATE_PAUSED (runstate_init vl_initial) = Inl Abort"
proof -
  have c: "current_run_state (runstate_init vl_initial) = RUN_STATE_PRELAUNCH"
    by (simp add: runstate_init_def vl_initial_def)
  have a: "(RUN_STATE_PRELAUNCH, RUN_STATE_RUNNING) \<in> set runstate_transitions_def"
    by (simp add: runstate_transitions_def_def)
  have b: "(RUN_STATE_PRELAUNCH, RUN_STATE_PAUSED) \<notin> set runstate_transitions_def"
    by (simp add: runstate_transitions_def_def)
  show ?thesis
    using a b
      runstate_set_follows_table [OF refl c, of RUN_STATE_RUNNING]
      runstate_set_follows_table [OF refl c, of RUN_STATE_PAUSED]
    by simp
qed

section \<open>Properties of the request flags and the main loop\<close>

lemma and_then_Inr_iff: "and_then r f = Inr y \<longleftrightarrow> (\<exists>x. r = Inr x \<and> f x = Inr y)"
  by (cases r) (simp_all add: and_then_def)

lemma and_then_Inl [simp]: "and_then (Inl e) f = Inl e"
  by (simp add: and_then_def)

lemma and_then_Inr [simp]: "and_then (Inr x) f = f x"
  by (simp add: and_then_def)

lemma should_exit_shutdown_True_iff:
  "(\<exists>s'. should_exit_shutdown vm_stop s = Inr (True, s')) \<longleftrightarrow>
     shutdown_requested s \<noteq> 0 \<and> no_shutdown s = 0"
  by (auto simp: should_exit_shutdown_def qemu_shutdown_requested_def qemu_kill_report_def
        emit_def and_then_Inr_iff Let_def)

lemma main_loop_should_exit_True_iff:
  "(\<exists>s'. main_loop_should_exit vm_stop s = Inr (True, s')) \<longleftrightarrow>
   (\<exists>s2. and_then (should_exit_debug vm_stop s) should_exit_suspend = Inr s2 \<and>
         shutdown_requested s2 \<noteq> 0 \<and> no_shutdown s2 = 0)"
proof -
  have "(\<exists>s'. main_loop_should_exit vm_stop s = Inr (True, s')) \<longleftrightarrow>
        (\<exists>s2. and_then (should_exit_debug vm_stop s) should_exit_suspend = Inr s2 \<and>
           (\<exists>s'. should_exit_shutdown vm_stop s2 = Inr (True, s')))"
    by (auto simp: main_loop_should_exit_def and_then_Inr_iff split: if_splits)
  then show ?thesis
    by (simp add: should_exit_shutdown_True_iff)
qed

lemma main_loop_do_once:
  "(\<exists>s'. main_loop_do (Suc 0) vm_stop main_loop_wait accel last_io s = Some (Inr s')) \<longleftrightarrow>
   (\<exists>s'. main_loop_should_exit vm_stop (snd (main_loop_wait (\<not> accel \<and> last_io > 0) s))
           = Inr (True, s'))"
  by (auto simp: Let_def split: prod.splits sum.splits if_splits)

lemma should_exit_debug_idle:
  "debug_requested s = 0 \<Longrightarrow> should_exit_debug vm_stop s = Inr (s\<lparr>debug_requested := 0\<rparr>)"
  by (simp add: should_exit_debug_def qemu_debug_requested_def)

lemma should_exit_suspend_idle:
  "suspend_requested s = 0 \<Longrightarrow> should_exit_suspend s = Inr (s\<lparr>suspend_requested := 0\<rparr>)"
  by (simp add: should_exit_suspend_def qemu_suspend_requested_def)

lemma main_loop_should_exit_idle_iff:
  assumes "debug_requested s = 0" and "suspend_requested s = 0"
  shows "(\<exists>s'. main_loop_should_exit vm_stop s = Inr (True, s')) \<longleftrightarrow>
         shutdown_requested s \<noteq> 0 \<and> no_shutdown s = 0"
  using assms
  by (simp add: main_loop_should_exit_True_iff should_exit_debug_idle should_exit_suspend_idle)

lemma to_suspended_iff:
  "runstate_valid_transitions (runstate_init s0) f RUN_STATE_SUSPENDED \<longleftrightarrow>
     f = RUN_STATE_RUNNING \<or> f = RUN_STATE_DEBUG"
  by (cases f)
     (simp_all add: runstate_init_def runstate_init_loop_iff runstate_transitions_def_def)

lemma qemu_system_suspend_cases:
  assumes "runstate_valid_transitions s = runstate_valid_transitions (runstate_init s0)"
  shows "qemu_system_suspend s =
           (if current_run_state s = RUN_STATE_RUNNING \<or> current_run_state s = RUN_STATE_DEBUG
            then Inr (emit Ev_qapi_event_send_suspend
                   ((emit Ev_notify_suspend_notifiers (emit Ev_pause_all_vcpus s))
                      \<lparr>current_run_state := RUN_STATE_SUSPENDED\<rparr>))
            else Inl Abort)"
  using to_suspended_iff [of s0 "current_run_state s"]
  by (simp add: qemu_system_suspend_def runstate_set_def emit_def assms)

lemma should_exit_suspend_cases:
  assumes "runstate_valid_transitions s = runstate_valid_transitions (runstate_init s0)"
    and "suspend_requested s \<noteq> 0"
  shows "should_exit_suspend s =
           (if current_run_state s = RUN_STATE_RUNNING \<or> current_run_state s = RUN_STATE_DEBUG
            then Inr (emit Ev_qapi_event_send_suspend
                   ((emit Ev_notify_suspend_notifiers
                       (emit Ev_pause_all_vcpus (s\<lparr>suspend_requested := 0\<rparr>)))
                      \<lparr>current_run_state := RUN_STATE_SUSPENDED\<rparr>))
            else Inl Abort)"
  using assms(2)
    qemu_system_suspend_cases [of "s\<lparr>suspend_requested := 0\<rparr>" s0]
  by (simp add: should_exit_suspend_def qemu_suspend_requested_def assms(1))

lemma suspend_step:
  assumes "should_exit_debug vm_stop s = Inr s1"
    and "runstate_valid_transitions s1 = runstate_valid_transitions (runstate_init s0)"
    and "suspend_requested s1 \<noteq> 0"
  shows "if current_run_state s1 = RUN_STATE_RUNNING \<or> current_run_state s1 = RUN_STATE_DEBUG
         then \<exists>s2. should_exit_suspend s1 = Inr s2
                \<and> current_run_state s2 = RUN_STATE_SUSPENDED \<and> suspend_requested s2 = 0
         else should_exit_suspend s1 = Inl Abort
              \<and> main_loop_should_exit vm_stop s = Inl Abort"
  using assms(1) should_exit_suspend_cases [OF assms(2,3)]
  by (simp add: main_loop_should_exit_def emit_def)

lemma main_loop_do_returns_now:
  assumes "main_loop_should_exit vm_stop (snd (main_loop_wait (\<not> accel \<and> last_io > 0) s))
             = Inr (True, s')"
  shows "main_loop_do (Suc fuel) vm_stop main_loop_wait accel last_io s = Some (Inr s')"
  using assms by (auto simp: Let_def split: prod.splits)

lemma main_loop_do_fails_now:
  assumes "main_loop_should_exit vm_stop (snd (main_loop_wait (\<not> accel \<and> last_io > 0) s))
             = Inl e"
  shows "main_loop_do (Suc fuel) vm_stop main_loop_wait accel last_io s = Some (Inl e)"
  using assms by (auto simp: Let_def split: prod.splits)

lemma main_loop_do_returned:
  assumes "main_loop_do fuel vm_stop main_loop_wait accel last_io s = Some (Inr s')"
  shows "\<exists>nonblocking s0.
           main_loop_should_exit vm_stop (snd (main_loop_wait nonblocking s0)) = Inr (True, s')"
  using assms
proof (induction fuel arbitrary: last_io s)
  case 0
  then show ?case by simp
next
  case (Suc fuel)
  obtain l s1 where w: "main_loop_wait (\<not> accel \<and> last_io > 0) s = (l, s1)"
    by (cases "main_loop_wait (\<not> accel \<and> last_io > 0) s")
  show ?case
  proof (cases "main_loop_should_exit vm_stop s1")
    case (Inl e)
    with Suc.prems w show ?thesis by (simp add: Let_def)
  next
    case (Inr p)
    obtain ret s2 where p: "p = (ret, s2)" by (cases p)
    show ?thesis
    proof (cases ret)
      case True
      with Suc.prems w Inr p have "s2 = s'" by (simp add: Let_def)
      with Inr p True w have
        "main_loop_should_exit vm_stop (snd (main_loop_wait (\<not> accel \<and> last_io > 0) s)) = Inr (True, s')"
        by simp
      then show ?thesis by blast
    next
      case False
      with Suc.prems w Inr p have
        "main_loop_do fuel vm_stop main_loop_wait accel l s2 = Some (Inr s')"
        by (simp add: Let_def)
      then show ?thesis by (rule Suc.IH)
    qed
  qed
qed

lemma main_loop_returned:
  assumes "0 \<le> hax_sync_vcpus"
    and "main_loop fuel vm_stop main_loop_wait accel hax_sync_vcpus s = Some (Inr s')"
  shows "\<exists>nonblocking s0 s2.
           main_loop_should_exit vm_stop (snd (main_loop_wait nonblocking s0)) = Inr (True, s')
           \<and> and_then (should_exit_debug vm_stop (snd (main_loop_wait nonblocking s0)))
                 should_exit_suspend = Inr s2
           \<and> shutdown_requested s2 \<noteq> 0 \<and> no_shutdown s2 = 0"
proof -
  from assms have "main_loop_do fuel vm_stop main_loop_wait accel 0 s = Some (Inr s')"
    by (simp add: main_loop_def)
  then obtain nonblocking s0 where
    r: "main_loop_should_exit vm_stop (snd (main_loop_wait nonblocking s0)) = Inr (True, s')"
    using main_loop_do_returned by blast
  then have "\<exists>s'. main_loop_should_exit vm_stop (snd (main_loop_wait nonblocking s0)) = Inr (True, s')"
    by blast
  then obtain s2 where
    "and_then (should_exit_debug vm_stop (snd (main_loop_wait nonblocking s0)))
                 should_exit_suspend = Inr s2 \<and> shutdown_requested s2 \<noteq> 0 \<and> no_shutdown s2 = 0"
    unfolding main_loop_should_exit_True_iff by blast
  with r show ?thesis by blast
qed

lemma main_loop_first_iteration:
  assumes "0 \<le> hax_sync_vcpus"
  shows "main_loop_should_exit vm_stop (snd (main_loop_wait False s)) = Inr (True, s') \<Longrightarrow>
         main_loop (Suc fuel) vm_stop main_loop_wait accel hax_sync_vcpus s = Some (Inr s')"
    and "main_loop_should_exit vm_stop (snd (main_loop_wait False s)) = Inl e \<Longrightarrow>
         main_loop (Suc fuel) vm_stop main_loop_wait accel hax_sync_vcpus s = Some (Inl e)"
  using assms
    main_loop_do_returns_now [of vm_stop main_loop_wait accel 0 s s' fuel]
    main_loop_do_fails_now [of vm_stop main_loop_wait accel 0 s e fuel]
  by (simp_all add: main_loop_def)

text \<open>
  C2, as stated, fails: draining a flag other than the shutdown request can end the loop
  in that iteration. At start-up (run state \<open>RUN_STATE_PRELAUNCH\<close>) with a suspend request
  raised and no shutdown request, the suspend step of \<open>main_loop_should_exit\<close> calls
  \<open>qemu_system_suspend\<close>, whose \<open>runstate_set (RUN_STATE_SUSPENDED)\<close> is not a transition
  of the table: the iteration, and the loop with it, ends in \<open>abort()\<close>.
\<close>

theorem suspend_drain_ends_loop_by_abort:
  "shutdown_requested (qemu_system_suspend_request (runstate_init vl_initial)) = 0
   \<and> suspend_requested (qemu_system_suspend_request (runstate_init vl_initial)) = 1
   \<and> current_run_state (qemu_system_suspend_request (runstate_init vl_initial)) = RUN_STATE_PRELAUNCH
   \<and> main_loop_should_exit vm_stop_transition (qemu_system_suspend_request (runstate_init vl_initial))
       = Inl Abort
   \<and> main_loop (Suc 0) vm_stop_transition main_loop_wait_idle False 0
        (qemu_system_suspend_request (runstate_init vl_initial)) = Some (Inl Abort)"
proof -
  let ?s = "qemu_system_suspend_request (runstate_init vl_initial)"
  have f: "shutdown_requested ?s = 0" "suspend_requested ?s = 1" "debug_requested ?s = 0"
    "current_run_state ?s = RUN_STATE_PRELAUNCH"
    "runstate_valid_transitions ?s = runstate_valid_transitions (runstate_init vl_initial)"
    by (simp_all add: qemu_system_suspend_request_def runstate_check_def runstate_init_def
        vl_initial_def emit_def)
  have d: "should_exit_debug vm_stop_transition ?s = Inr (?s\<lparr>debug_requested := 0\<rparr>)"
    using f(3) by (rule should_exit_debug_idle)
  have a: "main_loop_should_exit vm_stop_transition ?s = Inl Abort"
    using suspend_step [OF d, of vl_initial] f by simp
  have "main_loop (Suc 0) vm_stop_transition main_loop_wait_idle False 0 ?s = Some (Inl Abort)"
    using a main_loop_first_iteration(2) [of 0 vm_stop_transition main_loop_wait_idle ?s Abort 0 False]
    by (simp add: main_loop_wait_idle_def)
  with f a show ?thesis by simp
qed

text \<open>
  C2, amended. \<open>main_loop_should_exit\<close> returns true exactly when its third step is
  reached (the debug and suspend steps before it returned) and reads the shutdown request
  as set while \<open>no_shutdown\<close> is 0, whatever the other requests are and whatever
  \<open>vm_stop\<close> does; so one iteration of the \<open>do ... while\<close> loop (fuel 1) makes the loop
  return exactly under that condition on the state that \<open>main_loop_wait\<close> leaves. For
  \<open>main_loop\<close> itself, when \<open>hax_sync_vcpus\<close> did not fail: if the first iteration meets
  the condition, \<open>main_loop\<close> returns with the state of that iteration; and whenever
  \<open>main_loop\<close> returns, after any number of iterations, its last iteration drained the
  shutdown request as set with \<open>no_shutdown\<close> clear. No other flag makes the loop return,
  but an iteration can end without returning: once the matrix is built, a drained suspend
  request moves the run state to \<open>RUN_STATE_SUSPENDED\<close> from \<open>RUN_STATE_RUNNING\<close> and
  \<open>RUN_STATE_DEBUG\<close>, and in every other run state it ends \<open>main_loop_should_exit\<close> in
  \<open>abort()\<close>; a call that does not return in the first iteration ends \<open>main_loop\<close> the
  same way.
\<close>

theorem main_loop_returns_iff_shutdown_else_abort:
  "((\<exists>s'. main_loop_should_exit vm_stop s = Inr (True, s')) \<longleftrightarrow>
      (\<exists>s2. and_then (should_exit_debug vm_stop s) should_exit_suspend = Inr s2 \<and>
            shutdown_requested s2 \<noteq> 0 \<and> no_shutdown s2 = 0))
   \<and> ((\<exists>s'. main_loop_do (Suc 0) vm_stop main_loop_wait accel last_io s = Some (Inr s')) \<longleftrightarrow>
      (\<exists>s2. and_then (should_exit_debug vm_stop (snd (main_loop_wait (\<not> accel \<and> last_io > 0) s)))
               should_exit_suspend = Inr s2 \<and>
            shutdown_requested s2 \<noteq> 0 \<and> no_shutdown s2 = 0))
   \<and> (0 \<le> hax_sync_vcpus \<and>
        main_loop_should_exit vm_stop (snd (main_loop_wait False s)) = Inr (True, s') \<longrightarrow>
        main_loop (Suc fuel) vm_stop main_loop_wait accel hax_sync_vcpus s = Some (Inr s'))
   \<and> (0 \<le> hax_sync_vcpus \<and>
        main_loop fuel vm_stop main_loop_wait accel hax_sync_vcpus s = Some (Inr s') \<longrightarrow>
        (\<exists>nonblocking sa s2.
           main_loop_should_exit vm_stop (snd (main_loop_wait nonblocking sa)) = Inr (True, s')
           \<and> and_then (should_exit_debug vm_stop (snd (main_loop_wait nonblocking sa)))
                 should_exit_suspend = Inr s2
           \<and> shutdown_requested s2 \<noteq> 0 \<and> no_shutdown s2 = 0))
   \<and> (should_exit_debug vm_stop s = Inr s1 \<and>
        runstate_valid_transitions s1 = runstate_valid_transitions (runstate_init s0) \<and>
        suspend_requested s1 \<noteq> 0 \<longrightarrow>
        (if current_run_state s1 = RUN_STATE_RUNNING \<or> current_run_state s1 = RUN_STATE_DEBUG
         then \<exists>s2. should_exit_suspend s1 = Inr s2
                \<and> current_run_state s2 = RUN_STATE_SUSPENDED \<and> suspend_requested s2 = 0
         else should_exit_suspend s1 = Inl Abort
              \<and> main_loop_should_exit vm_stop s = Inl Abort))
   \<and> (0 \<le> hax_sync_vcpus \<and>
        main_loop_should_exit vm_stop (snd (main_loop_wait False s)) = Inl e \<longrightarrow>
        main_loop (Suc fuel) vm_stop main_loop_wait accel hax_sync_vcpus s = Some (Inl e))"
proof (intro conjI impI)
  show "(\<exists>s'. main_loop_should_exit vm_stop s = Inr (True, s')) \<longleftrightarrow>
      (\<exists>s2. and_then (should_exit_debug vm_stop s) should_exit_suspend = Inr s2 \<and>
            shutdown_requested s2 \<noteq> 0 \<and> no_shutdown s2 = 0)"
    by (rule main_loop_should_exit_True_iff)
  show "(\<exists>s'. main_loop_do (Suc 0) vm_stop main_loop_wait accel last_io s = Some (Inr s')) \<longleftrightarrow>
      (\<exists>s2. and_then (should_exit_debug vm_stop (snd (main_loop_wait (\<not> accel \<and> last_io > 0) s)))
               should_exit_suspend = Inr s2 \<and>
            shutdown_requested s2 \<noteq> 0 \<and> no_shutdown s2 = 0)"
    by (simp only: main_loop_do_once main_loop_should_exit_True_iff)
  show "main_loop (Suc fuel) vm_stop main_loop_wait accel hax_sync_vcpus s = Some (Inr s')"
    if "0 \<le> hax_sync_vcpus \<and>
        main_loop_should_exit vm_stop (snd (main_loop_wait False s)) = Inr (True, s')"
    using that main_loop_first_iteration(1) by blast
  show "\<exists>nonblocking sa s2.
           main_loop_should_exit vm_stop (snd (main_loop_wait nonblocking sa)) = Inr (True, s')
           \<and> and_then (should_exit_debug vm_stop (snd (main_loop_wait nonblocking sa)))
                 should_exit_suspend = Inr s2
           \<and> shutdown_requested s2 \<noteq> 0 \<and> no_shutdown s2 = 0"
    if "0 \<le> hax_sync_vcpus \<and>
        main_loop fuel vm_stop main_loop_wait accel hax_sync_vcpus s = Some (Inr s')"
    using that main_loop_returned [of hax_sync_vcpus fuel vm_stop main_loop_wait accel s s']
    by blast
  show "if current_run_state s1 = RUN_STATE_RUNNING \<or> current_run_state s1 = RUN_STATE_DEBUG
         then \<exists>s2. should_exit_suspend s1 = Inr s2
                \<and> current_run_state s2 = RUN_STATE_SUSPENDED \<and> suspend_requested s2 = 0
         else should_exit_suspend s1 = Inl Abort
              \<and> main_loop_should_exit vm_stop s = Inl Abort"
    if "should_exit_debug vm_stop s = Inr s1 \<and>
        runstate_valid_transitions s1 = runstate_valid_transitions (runstate_init s0) \<and>
        suspend_requested s1 \<noteq> 0"
    using that suspend_step [of vm_stop s s1 s0] by blast
  show "main_loop (Suc fuel) vm_stop main_loop_wait accel hax_sync_vcpus s = Some (Inl e)"
    if "0 \<le> hax_sync_vcpus \<and>
        main_loop_should_exit vm_stop (snd (main_loop_wait False s)) = Inl e"
    using that main_loop_first_iteration(2) by blast
qed

text \<open>
  C2, amended, at concrete inputs: with only a shutdown request raised the function
  returns true and \<open>main_loop\<close> returns in its first iteration; with only a powerdown
  request raised the function does not return true; with a suspend request raised at
  start-up the function and \<open>main_loop\<close> end in \<open>abort()\<close>.
\<close>

theorem main_loop_returns_iff_shutdown_else_abort_witness:
  "(\<exists>s'. main_loop_should_exit vm_stop_transition (qemu_system_shutdown_request vl_initial)
           = Inr (True, s'))
   \<and> \<not> (\<exists>s'. main_loop_should_exit vm_stop_transition (qemu_system_powerdown_request vl_initial)
           = Inr (True, s'))
   \<and> main_loop_should_exit vm_stop_transition (qemu_system_shutdown_request vl_initial)
       = Inr (True, emit Ev_qapi_event_send_shutdown
                      (vl_initial\<lparr>events := [Ev_qemu_notify_event]\<rparr>))
   \<and> main_loop (Suc 0) vm_stop_transition main_loop_wait_idle False 0
        (qemu_system_shutdown_request vl_initial)
       = Some (Inr (emit Ev_qapi_event_send_shutdown
                      (vl_initial\<lparr>events := [Ev_qemu_notify_event]\<rparr>)))
   \<and> suspend_requested (qemu_system_suspend_request (runstate_init vl_initial)) \<noteq> 0
   \<and> current_run_state (qemu_system_suspend_request (runstate_init vl_initial)) = RUN_STATE_PRELAUNCH
   \<and> main_loop_should_exit vm_stop_transition (qemu_system_suspend_request (runstate_init vl_initial))
       = Inl Abort
   \<and> main_loop (Suc 0) vm_stop_transition main_loop_wait_idle False 0
        (qemu_system_suspend_request (runstate_init vl_initial)) = Some (Inl Abort)"
proof -
  let ?sd = "qemu_system_shutdown_request vl_initial"
  let ?pd = "qemu_system_powerdown_request vl_initial"
  let ?sp = "qemu_system_suspend_request (runstate_init vl_initial)"
  let ?sd' = "emit Ev_qapi_event_send_shutdown (vl_initial\<lparr>events := [Ev_qemu_notify_event]\<rparr>)"
  have a: "and_then (should_exit_debug vm_stop_transition ?sd) should_exit_suspend
           = Inr (?sd\<lparr>debug_requested := 0, suspend_requested := 0\<rparr>)"
    by (simp add: should_exit_debug_idle should_exit_suspend_idle
        qemu_system_shutdown_request_def emit_def vl_initial_def)
  have b: "and_then (should_exit_debug vm_stop_transition ?pd) should_exit_suspend
           = Inr (?pd\<lparr>debug_requested := 0, suspend_requested := 0\<rparr>)"
    by (simp add: should_exit_debug_idle should_exit_suspend_idle
        qemu_system_powerdown_request_def emit_def vl_initial_def)
  have c: "shutdown_requested ?sd = 1" "no_shutdown ?sd = 0" "shutdown_requested ?pd = 0"
    by (simp_all add: qemu_system_shutdown_request_def qemu_system_powerdown_request_def
        emit_def vl_initial_def)
  have w1: "\<exists>s'. main_loop_should_exit vm_stop_transition ?sd = Inr (True, s')"
    using main_loop_returns_iff_shutdown_else_abort [where vm_stop = vm_stop_transition and s = ?sd]
    by (simp add: a c)
  have w2: "\<not> (\<exists>s'. main_loop_should_exit vm_stop_transition ?pd = Inr (True, s'))"
    using main_loop_returns_iff_shutdown_else_abort [where vm_stop = vm_stop_transition and s = ?pd]
    by (simp add: b c)
  have r: "main_loop_should_exit vm_stop_transition ?sd = Inr (True, ?sd')"
    by (simp add: main_loop_should_exit_def should_exit_debug_def should_exit_suspend_def
        should_exit_shutdown_def qemu_debug_requested_def qemu_suspend_requested_def
        qemu_shutdown_requested_def qemu_kill_report_def qemu_system_shutdown_request_def
        emit_def vl_initial_def Let_def)
  have w3: "main_loop (Suc 0) vm_stop_transition main_loop_wait_idle False 0 ?sd = Some (Inr ?sd')"
    using main_loop_returns_iff_shutdown_else_abort
      [where vm_stop = vm_stop_transition and s = ?sd and main_loop_wait = main_loop_wait_idle
         and hax_sync_vcpus = 0 and s' = ?sd' and fuel = 0 and accel = False]
      r
    by (simp add: main_loop_wait_idle_def)
  have f: "suspend_requested ?sp = 1" "debug_requested ?sp = 0"
    "current_run_state ?sp = RUN_STATE_PRELAUNCH"
    "runstate_valid_transitions ?sp = runstate_valid_transitions (runstate_init vl_initial)"
    by (simp_all add: qemu_system_suspend_request_def runstate_check_def runstate_init_def
        vl_initial_def emit_def)
  have d: "should_exit_debug vm_stop_transition ?sp = Inr (?sp\<lparr>debug_requested := 0\<rparr>)"
    using f(2) by (rule should_exit_debug_idle)
  have w4: "main_loop_should_exit vm_stop_transition ?sp = Inl Abort"
    using main_loop_returns_iff_shutdown_else_abort
      [where vm_stop = vm_stop_transition and s = ?sp and ?s1.0 = "?sp\<lparr>debug_requested := 0\<rparr>"
         and ?s0.0 = vl_initial]
      d f
    by simp
  have w5: "main_loop (Suc 0) vm_stop_transition main_loop_wait_idle False 0 ?sp = Some (Inl Abort)"
    using main_loop_returns_iff_shutdown_else_abort
      [where vm_stop = vm_stop_transition and s = ?sp and main_loop_wait = main_loop_wait_idle
         and hax_sync_vcpus = 0 and e = Abort and fuel = 0 and accel = False]
      w4
    by (simp add: main_loop_wait_idle_def)
  show ?thesis
    using w1 w2 r w3 w4 w5 f by simp
qed

text \<open>
  C3. Starting with the mutex free, two vmstop requests in a row (each one
  \<open>qemu_system_vmstop_request_prepare\<close> followed by \<open>qemu_system_vmstop_request\<close>), with
  targets \<open>t1\<close> and then a valid state \<open>t2\<close>, leave a state in which
  \<open>qemu_vmstop_requested\<close> reports a pending request with target \<open>t2\<close>, so that the last
  step of \<open>main_loop_should_exit\<close> makes the single call \<open>vm_stop t2\<close>; a second read
  right after reports no pending request, and the step calls nothing.
\<close>

theorem vmstop_request_last_write_wins:
  assumes "\<not> vmstop_lock s" and "t2 \<noteq> RUN_STATE_MAX"
  shows "\<exists>sa sb sc.
     and_then (qemu_system_vmstop_request_prepare s) (\<lambda>a.
       and_then (qemu_system_vmstop_request_prepare (qemu_system_vmstop_request t1 a)) (\<lambda>b.
         Inr (qemu_system_vmstop_request t2 b))) = Inr sa
     \<and> qemu_vmstop_requested sa = Inr (True, t2, sb)
     \<and> should_exit_vmstop vm_stop sa = vm_stop t2 sb
     \<and> qemu_vmstop_requested sb = Inr (False, RUN_STATE_MAX, sc)
     \<and> should_exit_vmstop vm_stop sb = Inr sc"
proof -
  have lt: "RunState_val t2 < 15"
    using assms(2) by (simp add: RunState_val_less_MAX)
  show ?thesis
    using assms(1) lt
    by (simp add: qemu_system_vmstop_request_prepare_def qemu_system_vmstop_request_def
        qemu_vmstop_requested_def qemu_mutex_lock_def qemu_mutex_unlock_def emit_def
        should_exit_vmstop_def Let_def)
qed

text \<open>
  C3 at a concrete input: from the start-up state, a request for \<open>RUN_STATE_IO_ERROR\<close>
  followed by one for \<open>RUN_STATE_PAUSED\<close>.
\<close>

theorem vmstop_request_last_write_wins_witness:
  "\<not> vmstop_lock vl_initial \<and> RUN_STATE_PAUSED \<noteq> RUN_STATE_MAX
   \<and> (\<exists>sa sb sc.
     and_then (qemu_system_vmstop_request_prepare vl_initial) (\<lambda>a.
       and_then (qemu_system_vmstop_request_prepare (qemu_system_vmstop_request RUN_STATE_IO_ERROR a)) (\<lambda>b.
         Inr (qemu_system_vmstop_request RUN_STATE_PAUSED b))) = Inr sa
     \<and> qemu_vmstop_requested sa = Inr (True, RUN_STATE_PAUSED, sb)
     \<and> should_exit_vmstop vm_stop_transition sa = vm_stop_transition RUN_STATE_PAUSED sb
     \<and> qemu_vmstop_requested sb = Inr (False, RUN_STATE_MAX, sc)
     \<and> should_exit_vmstop vm_stop_transition sb = Inr sc)"
proof -
  have l: "\<not> vmstop_lock vl_initial" by (simp add: vl_initial_def)
  have n: "RUN_STATE_PAUSED \<noteq> RUN_STATE_MAX" by simp
  show ?thesis
    using l n vmstop_request_last_write_wins [OF l n, of RUN_STATE_IO_ERROR vm_stop_transition]
    by blast
qed

text \<open>
  C4, as stated, fails for the wakeup reason: \<open>qemu_wakeup_requested\<close> only reads
  \<open>wakeup_reason\<close>. After a wakeup request made while suspended, reading twice in a row
  returns the pending reason (1, not the "none" value 0) both times.
\<close>

theorem wakeup_read_does_not_clear:
  "woken_from_suspend =
     Inr ((runstate_init vl_initial)
            \<lparr>current_run_state := RUN_STATE_RUNNING, wakeup_reason := 1,
             events := [Ev_qemu_notify_event]\<rparr>)
   \<and> fst (qemu_wakeup_requested ((runstate_init vl_initial)
            \<lparr>current_run_state := RUN_STATE_RUNNING, wakeup_reason := 1,
             events := [Ev_qemu_notify_event]\<rparr>)) = 1
   \<and> fst (qemu_wakeup_requested (snd (qemu_wakeup_requested ((runstate_init vl_initial)
            \<lparr>current_run_state := RUN_STATE_RUNNING, wakeup_reason := 1,
             events := [Ev_qemu_notify_event]\<rparr>)))) = 1
   \<and> QEMU_WAKEUP_REASON_NONE = 0"
  by (simp add: woken_from_suspend_def runstate_set_def runstate_init_def vl_initial_def
      runstate_init_loop_iff runstate_transitions_def_def
      qemu_system_wakeup_request_def runstate_check_def qemu_wakeup_requested_def
      QEMU_WAKEUP_REASON_NONE_def emit_def bit_simps)

text \<open>
  C4, amended. For the debug, suspend, shutdown, reset and powerdown requests the read
  function returns the flag's value and leaves the flag 0, so a second read right after
  returns 0. For the wakeup reason, \<open>qemu_wakeup_requested\<close> returns the reason and
  changes nothing; the reason is cleared by the wakeup step of \<open>main_loop_should_exit\<close>,
  after which a read returns the "none" value. When a reason is pending, that step changes
  the state in this way only: the reason becomes "none" and the calls of the step are made
  in source order, the wakeup notifiers being called with the pending reason (not with
  "none": the reason is cleared after they have been given it). When none is pending the
  step changes nothing.
\<close>

theorem request_flags_read_and_clear:
  "qemu_debug_requested s = (debug_requested s, s\<lparr>debug_requested := 0\<rparr>)
   \<and> fst (qemu_debug_requested (snd (qemu_debug_requested s))) = 0
   \<and> qemu_suspend_requested s = (suspend_requested s, s\<lparr>suspend_requested := 0\<rparr>)
   \<and> fst (qemu_suspend_requested (snd (qemu_suspend_requested s))) = 0
   \<and> qemu_shutdown_requested s = (shutdown_requested s, s\<lparr>shutdown_requested := 0\<rparr>)
   \<and> fst (qemu_shutdown_requested (snd (qemu_shutdown_requested s))) = 0
   \<and> qemu_reset_requested s = (reset_requested s, s\<lparr>reset_requested := 0\<rparr>)
   \<and> fst (qemu_reset_requested (snd (qemu_reset_requested s))) = 0
   \<and> qemu_powerdown_requested s = (powerdown_requested s, s\<lparr>powerdown_requested := 0\<rparr>)
   \<and> fst (qemu_powerdown_requested (snd (qemu_powerdown_requested s))) = 0
   \<and> qemu_wakeup_requested s = (wakeup_reason s, s)
   \<and> wakeup_reason (should_exit_wakeup s) = QEMU_WAKEUP_REASON_NONE
   \<and> fst (qemu_wakeup_requested (should_exit_wakeup s)) = QEMU_WAKEUP_REASON_NONE
   \<and> (wakeup_reason s \<noteq> QEMU_WAKEUP_REASON_NONE \<longrightarrow>
        should_exit_wakeup s =
          s\<lparr>wakeup_reason := QEMU_WAKEUP_REASON_NONE,
            events := events s @
              [Ev_pause_all_vcpus, Ev_cpu_synchronize_all_states, Ev_machine_or_devices_reset,
               Ev_cpu_synchronize_all_post_reset, Ev_notify_wakeup_notifiers (wakeup_reason s),
               Ev_resume_all_vcpus, Ev_qapi_event_send_wakeup]\<rparr>
        \<and> Ev_notify_wakeup_notifiers (wakeup_reason s) \<in> set (events (should_exit_wakeup s))
        \<and> Ev_notify_wakeup_notifiers QEMU_WAKEUP_REASON_NONE
             \<notin> set (drop (length (events s)) (events (should_exit_wakeup s))))
   \<and> (wakeup_reason s = QEMU_WAKEUP_REASON_NONE \<longrightarrow> should_exit_wakeup s = s)"
  by (simp add: qemu_debug_requested_def qemu_suspend_requested_def qemu_shutdown_requested_def
      qemu_reset_requested_def qemu_powerdown_requested_def qemu_wakeup_requested_def
      should_exit_wakeup_def qemu_system_reset_def emit_def QEMU_WAKEUP_REASON_NONE_def
      VMRESET_SILENT_def Let_def)

text \<open>
  C4, amended, at concrete inputs: in the state that a wakeup request with the reason of
  value 1 leaves, the wakeup step calls the notifiers with 1 and leaves the reason "none";
  in the start-up state, where no wakeup is pending, the step changes nothing.
\<close>

theorem request_flags_read_and_clear_witness:
  "wakeup_reason ((runstate_init vl_initial)
       \<lparr>current_run_state := RUN_STATE_RUNNING, wakeup_reason := 1,
        events := [Ev_qemu_notify_event]\<rparr>) \<noteq> QEMU_WAKEUP_REASON_NONE
   \<and> events (should_exit_wakeup ((runstate_init vl_initial)
       \<lparr>current_run_state := RUN_STATE_RUNNING, wakeup_reason := 1,
        events := [Ev_qemu_notify_event]\<rparr>))
       = [Ev_qemu_notify_event, Ev_pause_all_vcpus, Ev_cpu_synchronize_all_states,
          Ev_machine_or_devices_reset, Ev_cpu_synchronize_all_post_reset,
          Ev_notify_wakeup_notifiers 1, Ev_resume_all_vcpus, Ev_qapi_event_send_wakeup]
   \<and> wakeup_reason (should_exit_wakeup ((runstate_init vl_initial)
       \<lparr>current_run_state := RUN_STATE_RUNNING, wakeup_reason := 1,
        events := [Ev_qemu_notify_event]\<rparr>)) = 0
   \<and> wakeup_reason vl_initial = QEMU_WAKEUP_REASON_NONE
   \<and> should_exit_wakeup vl_initial = vl_initial"
proof -
  let ?w = "(runstate_init vl_initial)
       \<lparr>current_run_state := RUN_STATE_RUNNING, wakeup_reason := 1,
        events := [Ev_qemu_notify_event]\<rparr>"
  have a: "wakeup_reason ?w \<noteq> QEMU_WAKEUP_REASON_NONE"
    by (simp add: QEMU_WAKEUP_REASON_NONE_def)
  have b: "wakeup_reason vl_initial = QEMU_WAKEUP_REASON_NONE"
    by (simp add: QEMU_WAKEUP_REASON_NONE_def vl_initial_def)
  have c: "should_exit_wakeup ?w =
          ?w\<lparr>wakeup_reason := QEMU_WAKEUP_REASON_NONE,
            events := events ?w @
              [Ev_pause_all_vcpus, Ev_cpu_synchronize_all_states, Ev_machine_or_devices_reset,
               Ev_cpu_synchronize_all_post_reset, Ev_notify_wakeup_notifiers (wakeup_reason ?w),
               Ev_resume_all_vcpus, Ev_qapi_event_send_wakeup]\<rparr>"
    using request_flags_read_and_clear [of ?w] a by blast
  have d: "should_exit_wakeup vl_initial = vl_initial"
    using request_flags_read_and_clear [of vl_initial] b by blast
  have e: "events (should_exit_wakeup ?w)
       = [Ev_qemu_notify_event, Ev_pause_all_vcpus, Ev_cpu_synchronize_all_states,
          Ev_machine_or_devices_reset, Ev_cpu_synchronize_all_post_reset,
          Ev_notify_wakeup_notifiers 1, Ev_resume_all_vcpus, Ev_qapi_event_send_wakeup]"
    "wakeup_reason (should_exit_wakeup ?w) = 0"
    unfolding c by (simp_all add: QEMU_WAKEUP_REASON_NONE_def)
  show ?thesis
    by (intro conjI a b d e)
qed

text \<open>
  C10. \<open>qemu_system_reset_request\<close> sets \<open>shutdown_requested\<close> and leaves
  \<open>reset_requested\<close> alone when \<open>no_reboot\<close> is set, and sets \<open>reset_requested\<close> and leaves
  \<open>shutdown_requested\<close> alone when it is not. In the first case, with \<open>no_shutdown\<close> clear
  and no debug or suspend request pending, the next \<open>main_loop_should_exit\<close> returns
  true; in the second case, with no shutdown request pending before, it does not.
\<close>

theorem reset_request_honours_no_reboot:
  "(no_reboot s \<noteq> 0 \<longrightarrow>
      shutdown_requested (qemu_system_reset_request s) = 1 \<and>
      reset_requested (qemu_system_reset_request s) = reset_requested s)
   \<and> (no_reboot s = 0 \<longrightarrow>
      reset_requested (qemu_system_reset_request s) = 1 \<and>
      shutdown_requested (qemu_system_reset_request s) = shutdown_requested s)
   \<and> (no_reboot s \<noteq> 0 \<and> no_shutdown s = 0 \<and> debug_requested s = 0 \<and> suspend_requested s = 0 \<longrightarrow>
      (\<exists>s'. main_loop_should_exit vm_stop (qemu_system_reset_request s) = Inr (True, s')))
   \<and> (no_reboot s = 0 \<and> shutdown_requested s = 0 \<and> debug_requested s = 0 \<and> suspend_requested s = 0 \<longrightarrow>
      \<not> (\<exists>s'. main_loop_should_exit vm_stop (qemu_system_reset_request s) = Inr (True, s')))"
proof -
  have flags: "debug_requested (qemu_system_reset_request s) = debug_requested s"
    "suspend_requested (qemu_system_reset_request s) = suspend_requested s"
    "no_shutdown (qemu_system_reset_request s) = no_shutdown s"
    "shutdown_requested (qemu_system_reset_request s)
       = (if no_reboot s \<noteq> 0 then 1 else shutdown_requested s)"
    "reset_requested (qemu_system_reset_request s)
       = (if no_reboot s \<noteq> 0 then reset_requested s else 1)"
    by (simp_all add: qemu_system_reset_request_def emit_def)
  show ?thesis
    by (simp add: main_loop_should_exit_idle_iff flags)
qed

text \<open>
  C10 at concrete inputs: the start-up state with \<open>no_reboot\<close> set, and the start-up
  state itself.
\<close>

theorem reset_request_honours_no_reboot_witness:
  "shutdown_requested (qemu_system_reset_request (vl_initial\<lparr>no_reboot := 1\<rparr>)) = 1
   \<and> reset_requested (qemu_system_reset_request (vl_initial\<lparr>no_reboot := 1\<rparr>)) = 0
   \<and> (\<exists>s'. main_loop_should_exit vm_stop_transition
              (qemu_system_reset_request (vl_initial\<lparr>no_reboot := 1\<rparr>)) = Inr (True, s'))
   \<and> reset_requested (qemu_system_reset_request vl_initial) = 1
   \<and> shutdown_requested (qemu_system_reset_request vl_initial) = 0
   \<and> \<not> (\<exists>s'. main_loop_should_exit vm_stop_transition
              (qemu_system_reset_request vl_initial) = Inr (True, s'))"
  using reset_request_honours_no_reboot [of "vl_initial\<lparr>no_reboot := 1\<rparr>" vm_stop_transition]
    reset_request_honours_no_reboot [of vl_initial vm_stop_transition]
  by (simp add: vl_initial_def)

section \<open>Properties of the memory map\<close>

lemma ivl_disjoint_iff:
  fixes a b s t :: nat
  shows "{a ..< a + s} \<inter> {b ..< b + t} = {} \<longleftrightarrow> s = 0 \<or> t = 0 \<or> a + s \<le> b \<or> b + t \<le> a"
proof
  assume d: "{a ..< a + s} \<inter> {b ..< b + t} = {}"
  show "s = 0 \<or> t = 0 \<or> a + s \<le> b \<or> b + t \<le> a"
  proof (rule ccontr)
    assume "\<not> (s = 0 \<or> t = 0 \<or> a + s \<le> b \<or> b + t \<le> a)"
    then have "max a b \<in> {a ..< a + s} \<inter> {b ..< b + t}"
      by auto
    with d show False by simp
  qed
next
  assume "s = 0 \<or> t = 0 \<or> a + s \<le> b \<or> b + t \<le> a"
  then show "{a ..< a + s} \<inter> {b ..< b + t} = {}"
    by auto
qed

text \<open>
  C5, as stated, fails: the CPU peripheral space and the GIC distributor are distinct
  slots of \<open>memmap\<close> and their address ranges overlap.
\<close>

theorem memmap_ranges_overlap:
  "RANCHU_CPUPERIPHS \<noteq> RANCHU_GIC_DIST
   \<and> range_of (memmap RANCHU_CPUPERIPHS) \<inter> range_of (memmap RANCHU_GIC_DIST) \<noteq> {}"
  by (simp add: range_of_def ivl_disjoint_iff)

text \<open>
  C5, amended. The address ranges of two distinct slots of \<open>memmap\<close> are disjoint,
  except where one slot is the CPU peripheral space and the other is the GIC distributor
  or the GIC CPU interface: the ranges of these two lie inside the CPU peripheral space
  (they are disjoint from each other).
\<close>

theorem memmap_ranges_disjoint_outside_cpuperiphs:
  "(i \<noteq> j
     \<and> \<not> (i = RANCHU_CPUPERIPHS \<and> (j = RANCHU_GIC_DIST \<or> j = RANCHU_GIC_CPU))
     \<and> \<not> (j = RANCHU_CPUPERIPHS \<and> (i = RANCHU_GIC_DIST \<or> i = RANCHU_GIC_CPU))
     \<longrightarrow> range_of (memmap i) \<inter> range_of (memmap j) = {})
   \<and> range_of (memmap RANCHU_GIC_DIST) \<subseteq> range_of (memmap RANCHU_CPUPERIPHS)
   \<and> range_of (memmap RANCHU_GIC_CPU) \<subseteq> range_of (memmap RANCHU_CPUPERIPHS)"
proof -
  have "i \<noteq> j \<Longrightarrow>
     \<not> (i = RANCHU_CPUPERIPHS \<and> (j = RANCHU_GIC_DIST \<or> j = RANCHU_GIC_CPU)) \<Longrightarrow>
     \<not> (j = RANCHU_CPUPERIPHS \<and> (i = RANCHU_GIC_DIST \<or> i = RANCHU_GIC_CPU)) \<Longrightarrow>
     range_of (memmap i) \<inter> range_of (memmap j) = {}"
    by (cases i; cases j; simp add: range_of_def ivl_disjoint_iff)
  moreover have "range_of (memmap RANCHU_GIC_DIST) \<subseteq> range_of (memmap RANCHU_CPUPERIPHS)"
    by (simp add: range_of_def)
  moreover have "range_of (memmap RANCHU_GIC_CPU) \<subseteq> range_of (memmap RANCHU_CPUPERIPHS)"
    by (simp add: range_of_def)
  ultimately show ?thesis by blast
qed

text \<open>
  C5 at concrete slots: the UART and the RAM, the transport slots and the pipe, the two
  parts of the GIC.
\<close>

theorem memmap_ranges_disjoint_outside_cpuperiphs_witness:
  "RANCHU_UART \<noteq> RANCHU_MEM
   \<and> range_of (memmap RANCHU_UART) \<inter> range_of (memmap RANCHU_MEM) = {}
   \<and> range_of (memmap RANCHU_MMIO) \<inter> range_of (memmap RANCHU_ANDROID_PIPE) = {}
   \<and> range_of (memmap RANCHU_GIC_DIST) \<inter> range_of (memmap RANCHU_GIC_CPU) = {}"
  using memmap_ranges_disjoint_outside_cpuperiphs [of RANCHU_UART RANCHU_MEM]
    memmap_ranges_disjoint_outside_cpuperiphs [of RANCHU_MMIO RANCHU_ANDROID_PIPE]
    memmap_ranges_disjoint_outside_cpuperiphs [of RANCHU_GIC_DIST RANCHU_GIC_CPU]
  by simp

section \<open>Properties of board construction\<close>

subsection \<open>Calls and counting loops\<close>

lemma calls_Nil [simp]: "calls [] s = s"
  by (simp add: calls_def)

lemma calls_calls [simp]: "calls a (calls b s) = calls (b @ a) s"
  by (simp add: calls_def)

lemma trace_calls [simp]: "trace (calls es s) = trace s @ es"
  by (simp add: calls_def)

lemma fields_calls [simp]:
  "next_phandle (calls es s) = next_phandle s"
  "android_base_port (calls es s) = android_base_port s"
  "vbi_smp_cpus (calls es s) = vbi_smp_cpus s"
  "vbi_fdt_size (calls es s) = vbi_fdt_size s"
  "vbi_clock_phandle (calls es s) = vbi_clock_phandle s"
  "vbi_bootinfo (calls es s) = vbi_bootinfo s"
  by (simp_all add: calls_def)

lemma for_up_fold: "for_up i n body s = fold body [i..n - 1] s"
proof (induction i n body s rule: for_up.induct)
  case (1 i n body s)
  show ?case
  proof (cases "i < n")
    case True
    then have "[i..n - 1] = i # [i + 1..n - 1]"
      by (simp add: upto_rec1)
    with True 1 show ?thesis
      by (simp add: for_up.simps [of i])
  next
    case False
    then show ?thesis
      by (simp add: for_up.simps [of i])
  qed
qed

lemma for_down_fold: "for_down i body s = fold body (rev [0..i]) s"
proof (induction i body s rule: for_down.induct)
  case (1 i body s)
  show ?case
  proof (cases "i \<ge> 0")
    case True
    then have "rev [0..i] = i # rev [0..i - 1]"
      by (simp add: upto_rec2)
    with True 1 show ?thesis
      by (simp add: for_down.simps [of i])
  next
    case False
    then show ?thesis
      by (simp add: for_down.simps [of i])
  qed
qed

lemma for_up_exit_fold:
  assumes "\<And>j s. body j s = Inr (g j s)"
  shows "for_up_exit i n body s = Inr (fold g [i..n - 1] s)"
  using assms
proof (induction i n body s rule: for_up_exit.induct)
  case (1 i n body s)
  show ?case
  proof (cases "i < n")
    case True
    then have l: "[i..n - 1] = i # [i + 1..n - 1]"
      by (simp add: upto_rec1)
    have b: "body i s = Inr (g i s)"
      by (rule "1.prems")
    have "for_up_exit (i + 1) n body (g i s) = Inr (fold g [i + 1..n - 1] (g i s))"
      by (rule "1.IH" [OF True b "1.prems"])
    with True b l show ?thesis
      by (simp add: for_up_exit.simps [of i])
  next
    case False
    then show ?thesis
      by (simp add: for_up_exit.simps [of i])
  qed
qed

lemma for_up_exit_first:
  "i < n \<Longrightarrow> body i s = Inl e \<Longrightarrow> for_up_exit i n body s = Inl e"
  by (simp add: for_up_exit.simps [of i])

lemma for_up_exit_none:
  "\<not> i < n \<Longrightarrow> for_up_exit i n body s = Inr s"
  by (simp add: for_up_exit.simps [of i])

lemma fold_calls:
  assumes "\<And>j s. body j s = calls (ev j) s"
  shows "fold body xs s = calls (concat (map ev xs)) s"
  by (induction xs arbitrary: s) (simp_all add: assms)

lemma and_then_Inl_iff:
  "and_then r f = Inl e \<longleftrightarrow> r = Inl e \<or> (\<exists>x. r = Inr x \<and> f x = Inl e)"
  by (cases r) (simp_all add: and_then_def)

subsection \<open>What each step creates\<close>

lemma obs_calls [simp]:
  "created (calls es s) = created s @ filter is_creation es"
  "object_calls (calls es s) = object_calls s @ filter is_object_call es"
  by (simp_all add: created_def object_calls_def)

lemma obs_update [simp]:
  "created (s\<lparr>next_phandle := a\<rparr>) = created s"
  "created (s\<lparr>android_base_port := b\<rparr>) = created s"
  "created (s\<lparr>vbi_smp_cpus := c\<rparr>) = created s"
  "created (s\<lparr>vbi_fdt_size := d\<rparr>) = created s"
  "created (s\<lparr>vbi_clock_phandle := e\<rparr>) = created s"
  "created (s\<lparr>vbi_bootinfo := f\<rparr>) = created s"
  "object_calls (s\<lparr>next_phandle := a\<rparr>) = object_calls s"
  "object_calls (s\<lparr>android_base_port := b\<rparr>) = object_calls s"
  "object_calls (s\<lparr>vbi_smp_cpus := c\<rparr>) = object_calls s"
  "object_calls (s\<lparr>vbi_fdt_size := d\<rparr>) = object_calls s"
  "object_calls (s\<lparr>vbi_clock_phandle := e\<rparr>) = object_calls s"
  "object_calls (s\<lparr>vbi_bootinfo := f\<rparr>) = object_calls s"
  by (simp_all add: created_def object_calls_def)

lemma cpus_of_calls_other:
  "\<forall>e \<in> set es. \<not> is_object_call e \<Longrightarrow> cpus_of (xs @ es) = cpus_of xs"
proof (induction es arbitrary: xs)
  case Nil
  show ?case by simp
next
  case (Cons e es)
  have "cpus_of ((xs @ [e]) @ es) = cpus_of (xs @ [e])"
    using Cons.prems by (intro Cons.IH) simp
  moreover have "cpus_of (xs @ [e]) = cpus_of xs"
    using Cons.prems by (cases e) (simp_all add: cpus_of_def)
  ultimately show ?case by simp
qed

lemma create_fdt_psci_Inr:
  assumes "create_fdt_psci env s = Inr s'"
  shows "created s' = created s @ [Fdt_add_subnode ''/psci'']"
    and "object_calls s' = object_calls s"
    and "vbi_smp_cpus s' = vbi_smp_cpus s"
    and "0 \<in> set (cpus_of (trace s))"
  using assms
  by (auto simp: create_fdt_psci_def qemu_get_cpu_def Let_def
        split: prod.splits option.splits if_splits)

lemma create_fdt_psci_Inl:
  assumes "create_fdt_psci env s = Inl (e, s')"
  shows "e = Null_dereference"
    and "created s' = created s @ [Fdt_add_subnode ''/psci'']"
    and "0 \<notin> set (cpus_of (trace s))"
  using assms
  by (auto simp: create_fdt_psci_def qemu_get_cpu_def Let_def
        split: prod.splits option.splits if_splits)

lemma create_fdt_Some:
  assumes "create_device_tree env = Some sz"
  shows "\<exists>s4. create_fdt env s = (if kvm_enabled env then create_fdt_psci env s4 else Inr s4)
           \<and> created s4 = created s @
           [Create_device_tree, Fdt_add_subnode ''/firmware'', Fdt_add_subnode ''/firmware/android'',
            Fdt_add_subnode ''/chosen'', Fdt_add_subnode ''/memory'', Fdt_add_subnode ''/apb-pclk'']
           \<and> object_calls s4 = object_calls s
           \<and> vbi_smp_cpus s4 = vbi_smp_cpus s
           \<and> cpus_of (trace s4) = cpus_of (trace s)"
  unfolding create_fdt_def qemu_fdt_alloc_phandle_def Let_def
  apply (simp only: assms option.case prod.case)
  apply (rule exI, rule conjI, rule refl)
  apply (simp add: cpus_of_calls_other)
  done

lemma create_fdt_None:
  assumes "create_device_tree env = None"
  shows "create_fdt env s =
           Inl (Exit 1, calls [Create_device_tree, Error_report ''create_device_tree() failed''] s)"
  using assms by (simp add: create_fdt_def)

lemma create_fdt_Inr:
  assumes "create_fdt env s = Inr s'"
  shows "created s' = created s @
           [Create_device_tree, Fdt_add_subnode ''/firmware'', Fdt_add_subnode ''/firmware/android'',
            Fdt_add_subnode ''/chosen'', Fdt_add_subnode ''/memory'', Fdt_add_subnode ''/apb-pclk'']
           @ (if kvm_enabled env then [Fdt_add_subnode ''/psci''] else [])"
    and "object_calls s' = object_calls s"
    and "vbi_smp_cpus s' = vbi_smp_cpus s"
    and "kvm_enabled env \<Longrightarrow> 0 \<in> set (cpus_of (trace s))"
proof -
  from assms have "\<exists>sz. create_device_tree env = Some sz"
    by (cases "create_device_tree env") (simp_all add: create_fdt_None)
  then obtain sz where sz: "create_device_tree env = Some sz" ..
  from create_fdt_Some [OF sz, of s] assms obtain s4 where
    s4: "created s4 = created s @
           [Create_device_tree, Fdt_add_subnode ''/firmware'', Fdt_add_subnode ''/firmware/android'',
            Fdt_add_subnode ''/chosen'', Fdt_add_subnode ''/memory'', Fdt_add_subnode ''/apb-pclk'']"
      "object_calls s4 = object_calls s" "vbi_smp_cpus s4 = vbi_smp_cpus s"
      "cpus_of (trace s4) = cpus_of (trace s)" and
    r: "(if kvm_enabled env then create_fdt_psci env s4 else Inr s4) = Inr s'"
    by auto
  show "created s' = created s @
           [Create_device_tree, Fdt_add_subnode ''/firmware'', Fdt_add_subnode ''/firmware/android'',
            Fdt_add_subnode ''/chosen'', Fdt_add_subnode ''/memory'', Fdt_add_subnode ''/apb-pclk'']
           @ (if kvm_enabled env then [Fdt_add_subnode ''/psci''] else [])"
    using r s4(1) create_fdt_psci_Inr(1) [of env s4 s'] by (auto split: if_splits)
  show "object_calls s' = object_calls s"
    using r s4(2) create_fdt_psci_Inr(2) [of env s4 s'] by (auto split: if_splits)
  show "vbi_smp_cpus s' = vbi_smp_cpus s"
    using r s4(3) create_fdt_psci_Inr(3) [of env s4 s'] by (auto split: if_splits)
  show "0 \<in> set (cpus_of (trace s))" if "kvm_enabled env"
    using that r s4(4) create_fdt_psci_Inr(4) [of env s4 s'] by simp
qed

lemma create_fdt_Inl:
  assumes "create_fdt env s = Inl (e, s')"
  shows "\<exists>rest. created s' = created s @ Create_device_tree # rest"
    and "e = Exit 1 \<and> create_device_tree env = None
         \<or> e = Null_dereference \<and> kvm_enabled env"
proof -
  have "(\<exists>rest. created s' = created s @ Create_device_tree # rest) \<and>
        (e = Exit 1 \<and> create_device_tree env = None
         \<or> e = Null_dereference \<and> kvm_enabled env)"
  proof (cases "create_device_tree env")
    case None
    with assms show ?thesis
      by (auto simp: create_fdt_None)
  next
    case (Some sz)
    from create_fdt_Some [OF Some, of s] assms obtain s4 where
      s4: "created s4 = created s @
           [Create_device_tree, Fdt_add_subnode ''/firmware'', Fdt_add_subnode ''/firmware/android'',
            Fdt_add_subnode ''/chosen'', Fdt_add_subnode ''/memory'', Fdt_add_subnode ''/apb-pclk'']" and
      r: "(if kvm_enabled env then create_fdt_psci env s4 else Inr s4) = Inl (e, s')"
      by auto
    from r have k: "kvm_enabled env" and r': "create_fdt_psci env s4 = Inl (e, s')"
      by (auto split: if_splits)
    show ?thesis
      using s4 k create_fdt_psci_Inl(1,2) [OF r'] by simp
  qed
  then show "\<exists>rest. created s' = created s @ Create_device_tree # rest"
    and "e = Exit 1 \<and> create_device_tree env = None
         \<or> e = Null_dereference \<and> kvm_enabled env"
    by blast+
qed

lemma fdt_add_timer_nodes_Inr:
  assumes "fdt_add_timer_nodes env s = Inr s'"
  shows "created s' = created s @ [Fdt_add_subnode ''/timer'']"
    and "object_calls s' = object_calls s"
    and "vbi_smp_cpus s' = vbi_smp_cpus s"
    and "0 \<le> vbi_smp_cpus s" and "vbi_smp_cpus s \<le> 30"
  using assms
  by (auto simp: fdt_add_timer_nodes_def Let_def split: if_splits)

lemma fdt_add_timer_nodes_Inl:
  assumes "fdt_add_timer_nodes env s = Inl (e, s')"
  shows "s' = s"
  using assms
  by (auto simp: fdt_add_timer_nodes_def Let_def split: if_splits)

lemma cpu_loop_Inr:
  assumes "cpu_class_by_name env cpu_model = Some class_name"
  shows "for_up_exit 0 n (ranchu_init_cpu env cpu_model) s
           = Inr (calls (concat (map (cpu_calls env class_name) [0..n - 1])) s)"
proof -
  have b: "\<And>j s. ranchu_init_cpu env cpu_model j s = Inr (calls (cpu_calls env class_name j) s)"
    by (simp add: ranchu_init_cpu_def cpu_calls_def assms)
  show ?thesis
    by (simp add: for_up_exit_fold [OF b] fold_calls [OF refl])
qed

lemma cpu_loop_Inl:
  assumes "cpu_class_by_name env cpu_model = None" and "0 < n"
  shows "for_up_exit 0 n (ranchu_init_cpu env cpu_model) s
           = Inl (Exit 1, calls [Fprintf_stderr (''Unable to find CPU definition'' @ [CHR 0x0A])] s)"
  by (rule for_up_exit_first [OF assms(2)]) (simp add: ranchu_init_cpu_def assms(1))

lemma filter_cpu_calls [simp]:
  "filter is_creation (cpu_calls env class_name n) = [Object_new n class_name]"
  "filter is_object_call (cpu_calls env class_name n) = cpu_calls env class_name n"
  by (simp_all add: cpu_calls_def)

lemma concat_map_filter_cpu_calls [simp]:
  "concat (map (filter is_creation \<circ> cpu_calls env class_name) xs) = map (\<lambda>n. Object_new n class_name) xs"
  "concat (map (filter is_object_call \<circ> cpu_calls env class_name) xs) = concat (map (cpu_calls env class_name) xs)"
  by (induction xs) simp_all

lemma cpu_loop_obs:
  assumes "for_up_exit 0 n (ranchu_init_cpu env cpu_model) s = Inr s'"
  shows "created s' = created s
           @ map (\<lambda>i. Object_new i (the (cpu_class_by_name env cpu_model))) [0..n - 1]"
    and "object_calls s' = object_calls s
           @ concat (map (cpu_calls env (the (cpu_class_by_name env cpu_model))) [0..n - 1])"
    and "vbi_smp_cpus s' = vbi_smp_cpus s"
proof -
  have "created s' = created s
           @ map (\<lambda>i. Object_new i (the (cpu_class_by_name env cpu_model))) [0..n - 1]
      \<and> object_calls s' = object_calls s
           @ concat (map (cpu_calls env (the (cpu_class_by_name env cpu_model))) [0..n - 1])
      \<and> vbi_smp_cpus s' = vbi_smp_cpus s"
  proof (cases "cpu_class_by_name env cpu_model")
    case (Some class_name)
    with assms show ?thesis
      by (auto simp: cpu_loop_Inr [OF Some] filter_concat)
  next
    case None
    show ?thesis
    proof (cases "0 < n")
      case True
      with assms None show ?thesis
        by (simp add: cpu_loop_Inl)
    next
      case False
      with assms show ?thesis
        by (simp add: for_up_exit_none)
    qed
  qed
  then show "created s' = created s
           @ map (\<lambda>i. Object_new i (the (cpu_class_by_name env cpu_model))) [0..n - 1]"
    and "object_calls s' = object_calls s
           @ concat (map (cpu_calls env (the (cpu_class_by_name env cpu_model))) [0..n - 1])"
    and "vbi_smp_cpus s' = vbi_smp_cpus s"
    by simp_all
qed

lemma cpu_loop_Inl_obs:
  assumes "for_up_exit 0 n (ranchu_init_cpu env cpu_model) s = Inl (e, s')"
  shows "created s' = created s"
proof (cases "cpu_class_by_name env cpu_model")
  case (Some class_name)
  with assms show ?thesis
    by (simp add: cpu_loop_Inr [OF Some])
next
  case None
  show ?thesis
  proof (cases "0 < n")
    case True
    with assms None show ?thesis
      by (auto simp: cpu_loop_Inl)
  next
    case False
    with assms show ?thesis
      by (simp add: for_up_exit_none)
  qed
qed

lemma fdt_add_cpu_node_calls:
  "fdt_add_cpu_node env cpu s =
     calls ([Fdt_add_subnode (''/cpus/cpu@'' @ printf_d cpu),
             Fdt_setprop_string (''/cpus/cpu@'' @ printf_d cpu) ''device_type'' ''cpu'',
             Fdt_setprop_string (''/cpus/cpu@'' @ printf_d cpu) ''compatible'' (dtb_compatible env)]
            @ (if vbi_smp_cpus s > 1
               then [Fdt_setprop_string (''/cpus/cpu@'' @ printf_d cpu) ''enable-method'' ''psci''] else [])
            @ [Fdt_setprop_cell (''/cpus/cpu@'' @ printf_d cpu) ''reg'' (word_of_int cpu)]) s"
  by (simp add: fdt_add_cpu_node_def Let_def)

lemma fold_fdt_add_cpu_node_obs:
  "created (fold (fdt_add_cpu_node env) xs s)
     = created s @ map (\<lambda>cpu. Fdt_add_subnode (''/cpus/cpu@'' @ printf_d cpu)) xs"
  "object_calls (fold (fdt_add_cpu_node env) xs s) = object_calls s"
  by (induction xs arbitrary: s) (simp_all add: fdt_add_cpu_node_calls)

lemma fdt_add_cpu_nodes_obs [simp]:
  "created (fdt_add_cpu_nodes env s)
     = created s @ [Fdt_add_subnode ''/cpus'']
       @ map (\<lambda>cpu. Fdt_add_subnode (''/cpus/cpu@'' @ printf_d cpu)) (rev [0..vbi_smp_cpus s - 1])"
  "object_calls (fdt_add_cpu_nodes env s) = object_calls s"
  by (simp_all add: fdt_add_cpu_nodes_def for_down_fold fold_fdt_add_cpu_node_obs Let_def)

lemma fold_create_gic_wire_obs:
  "created (fold create_gic_wire xs s) = created s"
  "object_calls (fold create_gic_wire xs s) = object_calls s"
  by (induction xs arbitrary: s) (simp_all add: create_gic_wire_def Let_def)

lemma fdt_add_gic_node_obs [simp]:
  "created (fdt_add_gic_node s) = created s @ [Fdt_add_subnode ''/intc'']"
  "object_calls (fdt_add_gic_node s) = object_calls s"
  by (simp_all add: fdt_add_gic_node_def qemu_fdt_alloc_phandle_def Let_def)

lemma create_gic_obs [simp]:
  "created (create_gic env n s)
     = created s @ [Qdev_create (if kvm_irqchip_in_kernel env then ''kvm-arm-gic'' else ''arm_gic''),
                    Fdt_add_subnode ''/intc'']"
  "object_calls (create_gic env n s) = object_calls s"
  by (simp_all add: create_gic_def for_up_fold fold_create_gic_wire_obs Let_def)

lemma create_simple_device_obs [simp]:
  "created (create_simple_device devid name cs nc ks nk s)
     = created s @ [Sysbus_create_simple name (base (memmap devid)) (irqmap devid),
                    Fdt_add_subnode (''/'' @ name @ ''@'' @ printf_x64 (base (memmap devid)))]"
  "object_calls (create_simple_device devid name cs nc ks nk s) = object_calls s"
  by (simp_all add: create_simple_device_def Let_def)

lemma create_virtio_transport_calls:
  "create_virtio_transport i s
     = calls [Sysbus_create_simple ''virtio-mmio'' (virtio_base i) (irqmap RANCHU_MMIO + i)] s"
  by (simp add: create_virtio_transport_def virtio_base_def Let_def)

lemma create_virtio_node_calls:
  "create_virtio_node i s = calls (virtio_node_calls i) s"
  by (simp add: create_virtio_node_def virtio_base_def virtio_node_calls_def Let_def)

lemma create_virtio_devices_calls:
  "create_virtio_devices s =
     calls (map (\<lambda>i. Sysbus_create_simple ''virtio-mmio'' (virtio_base i) (irqmap RANCHU_MMIO + i))
              [0..NUM_VIRTIO_TRANSPORTS - 1]
            @ concat (map virtio_node_calls (rev [0..NUM_VIRTIO_TRANSPORTS - 1]))) s"
proof -
  have a: "\<And>j s. create_virtio_transport j s
             = calls ((\<lambda>i. [Sysbus_create_simple ''virtio-mmio'' (virtio_base i) (irqmap RANCHU_MMIO + i)]) j) s"
    by (simp add: create_virtio_transport_calls)
  show ?thesis
    unfolding create_virtio_devices_def for_up_fold for_down_fold
      fold_calls [OF a] fold_calls [OF create_virtio_node_calls]
    by simp
qed

lemma filter_virtio [simp]:
  "filter is_creation (map (\<lambda>i. Sysbus_create_simple name (f i) (g i)) xs)
     = map (\<lambda>i. Sysbus_create_simple name (f i) (g i)) xs"
  "filter is_object_call (map (\<lambda>i. Sysbus_create_simple name (f i) (g i)) xs) = []"
  "filter is_creation (concat (map virtio_node_calls xs))
     = map (\<lambda>i. Fdt_add_subnode (''/virtio_mmio@'' @ printf_x64 (virtio_base i))) xs"
  "filter is_object_call (concat (map virtio_node_calls xs)) = []"
  by (induction xs) (simp_all add: virtio_node_calls_def)

lemma create_virtio_devices_obs [simp]:
  "created (create_virtio_devices s)
     = created s
       @ map (\<lambda>i. Sysbus_create_simple ''virtio-mmio'' (virtio_base i) (irqmap RANCHU_MMIO + i))
           [0..NUM_VIRTIO_TRANSPORTS - 1]
       @ map (\<lambda>i. Fdt_add_subnode (''/virtio_mmio@'' @ printf_x64 (virtio_base i)))
           (rev [0..NUM_VIRTIO_TRANSPORTS - 1])"
  "object_calls (create_virtio_devices s) = object_calls s"
  by (simp_all add: create_virtio_devices_calls)

lemma console_and_adb_loop_obs:
  assumes "console_and_adb_loop env tries baseport s = Inr s'"
  shows "created s' = created s \<and> object_calls s' = object_calls s"
  using assms
proof (induction tries arbitrary: baseport s)
  case 0
  then show ?case by simp
next
  case (Suc tries)
  then show ?case
    by (auto simp: try_to_create_console_chardev_def Let_def split: if_splits)
qed

lemma initialize_console_and_adb_obs:
  assumes "initialize_console_and_adb env s = Inr s'"
  shows "created s' = created s" and "object_calls s' = object_calls s"
  using assms console_and_adb_loop_obs
  by (auto simp: initialize_console_and_adb_def Let_def)

lemma console_and_adb_loop_Inl:
  assumes "console_and_adb_loop env tries baseport s = Inl (e, s')"
  shows "created s' = created s"
  using assms
proof (induction tries arbitrary: baseport s)
  case 0
  then show ?case by auto
next
  case (Suc tries)
  then show ?case
    by (auto simp: try_to_create_console_chardev_def Let_def split: if_splits)
qed

lemma initialize_console_and_adb_Inl:
  assumes "initialize_console_and_adb env s = Inl (e, s')"
  shows "created s' = created s"
  using assms console_and_adb_loop_Inl
  by (auto simp: initialize_console_and_adb_def Let_def)

lemma console_and_adb_loop_first:
  assumes "chardev_opens env baseport" and "qemu2_adb_server_init env (baseport + 1)" and "0 < tries"
  shows "\<exists>s'. console_and_adb_loop env tries baseport s = Inr s'"
  using assms by (cases tries) (simp_all add: try_to_create_console_chardev_def)

lemma board_entry_obs [simp]:
  "created (board_entry env) = []" "object_calls (board_entry env) = []"
  by (simp_all add: created_def object_calls_def board_entry_def)

subsection \<open>Runs that return and runs that exit\<close>

lemma ranchu_init_Inr:
  assumes "ranchu_init env machine n = Inr s'"
  shows "created s' =
           [Create_device_tree, Fdt_add_subnode ''/firmware'', Fdt_add_subnode ''/firmware/android'',
            Fdt_add_subnode ''/chosen'', Fdt_add_subnode ''/memory'', Fdt_add_subnode ''/apb-pclk'']
           @ (if kvm_enabled env then [Fdt_add_subnode ''/psci''] else [])
           @ [Fdt_add_subnode ''/timer'']
           @ map (\<lambda>i. Object_new i (the (cpu_class_by_name env (the_cpu_model machine)))) [0..n - 1]
           @ [Fdt_add_subnode ''/cpus'']
           @ map (\<lambda>cpu. Fdt_add_subnode (''/cpus/cpu@'' @ printf_d cpu)) (rev [0..n - 1])
           @ [Memory_region_init_ram ''ranchu.ram'' (m_ram_size machine),
              Qdev_create (if kvm_irqchip_in_kernel env then ''kvm-arm-gic'' else ''arm_gic''),
              Fdt_add_subnode ''/intc'',
              Sysbus_create_simple ''pl011'' 0x9000000 1,
              Fdt_add_subnode (''/pl011@'' @ printf_x64 0x9000000),
              Sysbus_create_simple ''goldfish_fb'' 0x9010000 2,
              Fdt_add_subnode (''/goldfish_fb@'' @ printf_x64 0x9010000),
              Sysbus_create_simple ''goldfish_battery'' 0x9020000 3,
              Fdt_add_subnode (''/goldfish_battery@'' @ printf_x64 0x9020000),
              Sysbus_create_simple ''goldfish_audio'' 0x9030000 4,
              Fdt_add_subnode (''/goldfish_audio@'' @ printf_x64 0x9030000),
              Sysbus_create_simple ''goldfish-events'' 0x9040000 5,
              Fdt_add_subnode (''/goldfish-events@'' @ printf_x64 0x9040000),
              Sysbus_create_simple ''android_pipe'' 0xa010000 6,
              Fdt_add_subnode (''/android_pipe@'' @ printf_x64 0xa010000)]
           @ map (\<lambda>i. Sysbus_create_simple ''virtio-mmio'' (virtio_base i) (irqmap RANCHU_MMIO + i))
               [0..NUM_VIRTIO_TRANSPORTS - 1]
           @ map (\<lambda>i. Fdt_add_subnode (''/virtio_mmio@'' @ printf_x64 (virtio_base i)))
               (rev [0..NUM_VIRTIO_TRANSPORTS - 1])"
    and "object_calls s' =
           concat (map (cpu_calls env (the (cpu_class_by_name env (the_cpu_model machine)))) [0..n - 1])"
    and "m_ram_size machine \<le> size_m (memmap RANCHU_MEM)"
    and "0 \<le> n" and "n \<le> 30"
    and "\<not> kvm_enabled env"
proof -
  let ?s0 = "(board_entry env)\<lparr>vbi_smp_cpus := n\<rparr>"
  from assms have ram: "\<not> m_ram_size machine > size_m (memmap RANCHU_MEM)"
    by (auto simp: ranchu_init_def Let_def split: if_splits)
  from assms ram obtain s1 s2 s3 s14 where
    s1: "create_fdt env ?s0 = Inr s1" and
    s2: "fdt_add_timer_nodes env s1 = Inr s2" and
    s3: "for_up_exit 0 n (ranchu_init_cpu env (the_cpu_model machine)) s2 = Inr s3" and
    s14: "initialize_console_and_adb env
            (create_virtio_devices
              (create_simple_device RANCHU_ANDROID_PIPE ''android_pipe''
                 (''generic,android-pipe'' @ [NUL]) 1 [] 0
              (create_simple_device RANCHU_GF_EVDEV ''goldfish-events''
                 (''generic,goldfish-events-keypad'' @ [NUL]) 1 [] 0
              (create_simple_device RANCHU_GF_AUDIO ''goldfish_audio''
                 (''generic,goldfish-audio'' @ [NUL]) 1 [] 0
              (create_simple_device RANCHU_GF_BATTERY ''goldfish_battery''
                 (''generic,goldfish-battery'' @ [NUL]) 1 [] 0
              (create_simple_device RANCHU_GF_FB ''goldfish_fb''
                 (''generic,goldfish-fb'' @ [NUL]) 1 [] 0
              (create_simple_device RANCHU_UART ''pl011''
                 (''arm,pl011'' @ [NUL] @ ''arm,primecell'' @ [NUL]) 2
                 (''uartclk'' @ [NUL] @ ''apb_pclk'' @ [NUL]) 2
              (create_gic env n
              (calls [Memory_region_init_ram ''ranchu.ram'' (m_ram_size machine),
                      Vmstate_register_ram_global,
                      Memory_region_add_subregion (base (memmap RANCHU_MEM))]
              (fdt_add_cpu_nodes env s3)))))))))) = Inr s14" and
    s': "created s' = created s14" "object_calls s' = object_calls s14"
    by (auto simp: ranchu_init_def Let_def the_cpu_model_def and_then_Inr_iff)
  have n3: "vbi_smp_cpus s3 = n"
    using create_fdt_Inr(3) [OF s1] fdt_add_timer_nodes_Inr(3) [OF s2] cpu_loop_obs(3) [OF s3]
    by simp
  have n1: "vbi_smp_cpus s1 = n"
    using create_fdt_Inr(3) [OF s1] by simp
  show "0 \<le> n" "n \<le> 30"
    using fdt_add_timer_nodes_Inr(4,5) [OF s2] n1 by simp_all
  show "\<not> kvm_enabled env"
    using create_fdt_Inr(4) [OF s1] by (auto simp: board_entry_def cpus_of_def)
  show "m_ram_size machine \<le> size_m (memmap RANCHU_MEM)"
    using ram by simp
  show "created s' = 
           [Create_device_tree, Fdt_add_subnode ''/firmware'', Fdt_add_subnode ''/firmware/android'',
            Fdt_add_subnode ''/chosen'', Fdt_add_subnode ''/memory'', Fdt_add_subnode ''/apb-pclk'']
           @ (if kvm_enabled env then [Fdt_add_subnode ''/psci''] else [])
           @ [Fdt_add_subnode ''/timer'']
           @ map (\<lambda>i. Object_new i (the (cpu_class_by_name env (the_cpu_model machine)))) [0..n - 1]
           @ [Fdt_add_subnode ''/cpus'']
           @ map (\<lambda>cpu. Fdt_add_subnode (''/cpus/cpu@'' @ printf_d cpu)) (rev [0..n - 1])
           @ [Memory_region_init_ram ''ranchu.ram'' (m_ram_size machine),
              Qdev_create (if kvm_irqchip_in_kernel env then ''kvm-arm-gic'' else ''arm_gic''),
              Fdt_add_subnode ''/intc'',
              Sysbus_create_simple ''pl011'' 0x9000000 1,
              Fdt_add_subnode (''/pl011@'' @ printf_x64 0x9000000),
              Sysbus_create_simple ''goldfish_fb'' 0x9010000 2,
              Fdt_add_subnode (''/goldfish_fb@'' @ printf_x64 0x9010000),
              Sysbus_create_simple ''goldfish_battery'' 0x9020000 3,
              Fdt_add_subnode (''/goldfish_battery@'' @ printf_x64 0x9020000),
              Sysbus_create_simple ''goldfish_audio'' 0x9030000 4,
              Fdt_add_subnode (''/goldfish_audio@'' @ printf_x64 0x9030000),
              Sysbus_create_simple ''goldfish-events'' 0x9040000 5,
              Fdt_add_subnode (''/goldfish-events@'' @ printf_x64 0x9040000),
              Sysbus_create_simple ''android_pipe'' 0xa010000 6,
              Fdt_add_subnode (''/android_pipe@'' @ printf_x64 0xa010000)]
           @ map (\<lambda>i. Sysbus_create_simple ''virtio-mmio'' (virtio_base i) (irqmap RANCHU_MMIO + i))
               [0..NUM_VIRTIO_TRANSPORTS - 1]
           @ map (\<lambda>i. Fdt_add_subnode (''/virtio_mmio@'' @ printf_x64 (virtio_base i)))
               (rev [0..NUM_VIRTIO_TRANSPORTS - 1])"
    using s'(1) initialize_console_and_adb_obs(1) [OF s14]
      cpu_loop_obs(1) [OF s3] fdt_add_timer_nodes_Inr(1) [OF s2] create_fdt_Inr(1) [OF s1] n3
    by simp
  show "object_calls s' =
           concat (map (cpu_calls env (the (cpu_class_by_name env (the_cpu_model machine)))) [0..n - 1])"
    using s'(2) initialize_console_and_adb_obs(2) [OF s14]
      cpu_loop_obs(2) [OF s3] fdt_add_timer_nodes_Inr(2) [OF s2] create_fdt_Inr(2) [OF s1]
    by simp
qed


lemma ranchu_init_ram_ok_first:
  assumes "m_ram_size machine \<le> size_m (memmap RANCHU_MEM)"
  shows "\<exists>rest. created (final_state (ranchu_init env machine n)) = Create_device_tree # rest"
proof -
  let ?s0 = "(board_entry env)\<lparr>vbi_smp_cpus := n\<rparr>"
  have ram: "\<not> m_ram_size machine > size_m (memmap RANCHU_MEM)"
    using assms by simp
  show ?thesis
  proof (cases "create_fdt env ?s0")
    case (Inl a)
    then obtain e s' where a: "a = (e, s')" by (cases a)
    with Inl have "\<exists>rest. created s' = Create_device_tree # rest"
      using create_fdt_Inl(1) [of env ?s0 e s'] by simp
    with Inl a ram show ?thesis
      by (simp add: ranchu_init_def Let_def final_state_def)
  next
    case s1: (Inr s1)
    have c1: "\<exists>rest. created s1 = Create_device_tree # rest"
      using create_fdt_Inr(1) [OF s1] by simp
    show ?thesis
    proof (cases "fdt_add_timer_nodes env s1")
      case (Inl a)
      then obtain e s' where a: "a = (e, s')" by (cases a)
      with Inl have "s' = s1"
        using fdt_add_timer_nodes_Inl [of env s1 e s'] by simp
      with Inl a ram s1 c1 show ?thesis
        by (simp add: ranchu_init_def Let_def final_state_def)
    next
      case s2: (Inr s2)
      have c2: "\<exists>rest. created s2 = Create_device_tree # rest"
        using fdt_add_timer_nodes_Inr(1) [OF s2] c1 by auto
      show ?thesis
      proof (cases "for_up_exit 0 n (ranchu_init_cpu env (the_cpu_model machine)) s2")
        case (Inl a)
        then obtain e s' where a: "a = (e, s')" by (cases a)
        with Inl have "created s' = created s2"
          using cpu_loop_Inl_obs [of n env "the_cpu_model machine" s2 e s'] by simp
        with Inl a ram s1 s2 c2 show ?thesis
          by (simp add: ranchu_init_def Let_def final_state_def the_cpu_model_def)
      next
        case s3: (Inr s3)
        have c3: "\<exists>rest. created s3 = Create_device_tree # rest"
          using cpu_loop_obs(1) [OF s3] c2 by auto
        show ?thesis
        proof (cases "ranchu_init env machine n")
          case (Inl a)
          then obtain e s' where a: "a = (e, s')" by (cases a)
          with Inl ram s1 s2 s3 have "\<exists>s13. initialize_console_and_adb env s13 = Inl (e, s')
             \<and> (\<exists>rest. created s13 = created s3 @ rest)"
            by (auto simp: ranchu_init_def Let_def the_cpu_model_def and_then_Inl_iff)
          then have "\<exists>rest. created s' = created s3 @ rest"
            using initialize_console_and_adb_Inl by metis
          with c3 Inl a show ?thesis
            by (auto simp: final_state_def)
        next
          case (Inr s')
          then show ?thesis
            using ranchu_init_Inr(1) [OF Inr] by (simp add: final_state_def)
        qed
      qed
    qed
  qed
qed

lemma ranchu_init_ram_too_big:
  assumes "m_ram_size machine > size_m (memmap RANCHU_MEM)"
  shows "ranchu_init env machine n =
           Inl (Exit 1, (board_entry env)\<lparr>vbi_smp_cpus := n,
                  trace := [Error_report ''ranchu: cannot model more than 30GB RAM'']\<rparr>)"
  using assms by (simp add: ranchu_init_def calls_def board_entry_def)

lemma ranchu_init_succeeds:
  assumes "m_ram_size machine \<le> size_m (memmap RANCHU_MEM)"
    and "create_device_tree env = Some sz"
    and "0 \<le> n" and "n \<le> 30"
    and "0 < n \<Longrightarrow> cpu_class_by_name env (the_cpu_model machine) \<noteq> None"
    and "\<And>p. chardev_opens env p" and "\<And>p. qemu2_adb_server_init env p"
    and "\<not> kvm_enabled env"
  shows "\<exists>s'. ranchu_init env machine n = Inr s'"
proof -
  let ?s0 = "(board_entry env)\<lparr>vbi_smp_cpus := n\<rparr>"
  have ram: "\<not> m_ram_size machine > size_m (memmap RANCHU_MEM)"
    using assms(1) by simp
  have "\<exists>s1. create_fdt env ?s0 = Inr s1"
    using create_fdt_Some [OF assms(2), of ?s0] assms(8) by auto
  then obtain s1 where s1: "create_fdt env ?s0 = Inr s1" ..
  have n1: "vbi_smp_cpus s1 = n"
    using create_fdt_Inr(3) [OF s1] by simp
  have "\<exists>s2. fdt_add_timer_nodes env s1 = Inr s2"
    using assms(3,4) n1 by (simp add: fdt_add_timer_nodes_def Let_def)
  then obtain s2 where s2: "fdt_add_timer_nodes env s1 = Inr s2" ..
  have "\<exists>s3. for_up_exit 0 n (ranchu_init_cpu env (the_cpu_model machine)) s2 = Inr s3"
  proof (cases "0 < n")
    case True
    then obtain c where "cpu_class_by_name env (the_cpu_model machine) = Some c"
      using assms(5) by auto
    then show ?thesis
      by (simp add: cpu_loop_Inr)
  next
    case False
    then show ?thesis
      by (simp add: for_up_exit_none)
  qed
  then obtain s3 where
    s3: "for_up_exit 0 n (ranchu_init_cpu env (the_cpu_model machine)) s2 = Inr s3" ..
  have con: "\<And>s. \<exists>s'. initialize_console_and_adb env s = Inr s'"
    using console_and_adb_loop_first [OF assms(6) assms(7)]
    by (simp add: initialize_console_and_adb_def MAX_ANDROID_EMULATORS_def Let_def)
  show ?thesis
    using ram s1 s2 s3 con
    by (simp add: ranchu_init_def Let_def the_cpu_model_def and_then_Inr_iff)
qed

lemma tcg_env_simps [simp]:
  "create_device_tree tcg_env = Some 0x100000"
  "kvm_enabled tcg_env = False"
  "kvm_irqchip_in_kernel tcg_env = False"
  "cpu_class_by_name tcg_env ''cortex-a57'' = Some ''cortex-a57-arm-cpu''"
  "has_reset_cbar tcg_env = True"
  "chardev_opens tcg_env p = True"
  "qemu2_adb_server_init tcg_env p = True"
  by (simp_all add: tcg_env_def)

lemma machine_of_ram_simps [simp]:
  "m_ram_size (machine_of_ram sz) = sz"
  "the_cpu_model (machine_of_ram sz) = ''cortex-a57''"
  by (simp_all add: machine_of_ram_def the_cpu_model_def)

lemma tcg_run_succeeds:
  assumes "sz \<le> 32212254720" and "0 \<le> n" and "n \<le> 30"
  shows "\<exists>s'. ranchu_init tcg_env (machine_of_ram sz) n = Inr s'"
  using assms by (intro ranchu_init_succeeds [where sz = "0x100000"]) simp_all

subsection \<open>Nodes, CPU objects and devices of a run\<close>

lemma subnodes_of_simps [simp]:
  "subnodes_of [] = []"
  "subnodes_of (xs @ ys) = subnodes_of xs @ subnodes_of ys"
  "subnodes_of (Fdt_add_subnode p # es) = p # subnodes_of es"
  "\<not> is_creation e \<Longrightarrow> subnodes_of (e # es) = subnodes_of es"
  "subnodes_of (Create_device_tree # es) = subnodes_of es"
  "subnodes_of (Object_new n c # es) = subnodes_of es"
  "subnodes_of (Memory_region_init_ram nm sz # es) = subnodes_of es"
  "subnodes_of (Qdev_create nm # es) = subnodes_of es"
  "subnodes_of (Sysbus_create_simple nm a q # es) = subnodes_of es"
  by (simp_all add: subnodes_of_def) (cases e; simp)

lemma subnodes_of_filter: "subnodes_of (filter is_creation es) = subnodes_of es"
proof (induction es)
  case Nil
  show ?case by simp
next
  case (Cons e es)
  then show ?case
    by (cases e) (simp_all add: subnodes_of_def)
qed

lemma subnodes_of_map [simp]:
  "subnodes_of (map (\<lambda>i. Fdt_add_subnode (f i)) xs) = map f xs"
  "subnodes_of (map (\<lambda>i. Object_new i c) xs) = []"
  "subnodes_of (map (\<lambda>i. Sysbus_create_simple nm (g i) (h i)) xs) = []"
  by (induction xs) simp_all

lemma fdt_subnodes_created: "fdt_subnodes s = subnodes_of (created s)"
  by (simp add: fdt_subnodes_def created_def subnodes_of_filter)

lemma cpu_objects_alt: "cpu_objects s = cpus_of (trace s)"
  by (simp add: cpu_objects_def)

lemma sysbus_devices_alt: "sysbus_devices name s = devices_of name (trace s)"
  by (simp add: sysbus_devices_def)

lemma cpus_of_simps [simp]:
  "cpus_of [] = []"
  "cpus_of (xs @ ys) = cpus_of xs @ cpus_of ys"
  "cpus_of (Object_new n c # es) = n # cpus_of es"
  "cpus_of (Fdt_add_subnode p # es) = cpus_of es"
  "cpus_of (Create_device_tree # es) = cpus_of es"
  "cpus_of (Memory_region_init_ram nm sz # es) = cpus_of es"
  "cpus_of (Qdev_create nm # es) = cpus_of es"
  "cpus_of (Sysbus_create_simple nm a q # es) = cpus_of es"
  by (simp_all add: cpus_of_def)

lemma devices_of_simps [simp]:
  "devices_of name [] = []"
  "devices_of name (xs @ ys) = devices_of name xs @ devices_of name ys"
  "devices_of name (Sysbus_create_simple nm a q # es)
     = (if nm = name then [(a, q)] else []) @ devices_of name es"
  "devices_of name (Object_new n c # es) = devices_of name es"
  "devices_of name (Fdt_add_subnode p # es) = devices_of name es"
  "devices_of name (Create_device_tree # es) = devices_of name es"
  "devices_of name (Memory_region_init_ram nm sz # es) = devices_of name es"
  "devices_of name (Qdev_create nm # es) = devices_of name es"
  by (simp_all add: devices_of_def)

lemma cpus_of_filter: "cpus_of (filter is_creation es) = cpus_of es"
proof (induction es)
  case Nil
  show ?case by simp
next
  case (Cons e es)
  then show ?case
    by (cases e) (simp_all add: cpus_of_def)
qed

lemma devices_of_filter: "devices_of name (filter is_creation es) = devices_of name es"
proof (induction es)
  case Nil
  show ?case by simp
next
  case (Cons e es)
  then show ?case
    by (cases e) (simp_all add: devices_of_def)
qed

lemma cpus_of_map [simp]:
  "cpus_of (map (\<lambda>i. Object_new i c) xs) = xs"
  "cpus_of (map (\<lambda>i. Fdt_add_subnode (f i)) xs) = []"
  "cpus_of (map (\<lambda>i. Sysbus_create_simple nm (g i) (h i)) xs) = []"
  by (induction xs) simp_all

lemma devices_of_map [simp]:
  "devices_of name (map (\<lambda>i. Sysbus_create_simple nm (g i) (h i)) xs)
     = (if nm = name then map (\<lambda>i. (g i, h i)) xs else [])"
  "devices_of name (map (\<lambda>i. Fdt_add_subnode (f i)) xs) = []"
  "devices_of name (map (\<lambda>i. Object_new i c) xs) = []"
  by (induction xs) simp_all

lemma filter_const_map:
  "(\<And>i. P (f i)) \<Longrightarrow> filter P (map f xs) = map f xs"
  "(\<And>i. \<not> P (f i)) \<Longrightarrow> filter P (map f xs) = []"
  by (induction xs) simp_all

lemma last_rev_upto: "0 < n \<Longrightarrow> last (map f (rev [0..n - 1])) = f 0"
proof -
  assume "0 < n"
  then have "[0..n - 1] = 0 # [1..n - 1]"
    by (simp add: upto_rec1)
  then show ?thesis
    by (simp add: last_map rev_map [symmetric] last_rev)
qed

lemma set_object_calls:
  "is_object_call e \<Longrightarrow> e \<in> set (trace s) \<longleftrightarrow> e \<in> set (object_calls s)"
  by (simp add: object_calls_def)

lemma ranchu_init_cpu_objects:
  assumes "ranchu_init env machine n = Inr s'"
  shows "cpu_objects s' = [0..n - 1]"
proof -
  have "cpu_objects s' = cpus_of (created s')"
    by (simp add: cpu_objects_alt created_def cpus_of_filter)
  then show ?thesis
    by (simp add: ranchu_init_Inr(1) [OF assms])
qed

lemma ranchu_init_virtio_devices:
  assumes "ranchu_init env machine n = Inr s'"
  shows "sysbus_devices ''virtio-mmio'' s'
           = map (\<lambda>i. (virtio_base i, irqmap RANCHU_MMIO + i)) [0..NUM_VIRTIO_TRANSPORTS - 1]"
proof -
  have "sysbus_devices ''virtio-mmio'' s' = devices_of ''virtio-mmio'' (created s')"
    by (simp add: sysbus_devices_alt created_def devices_of_filter)
  then show ?thesis
    by (simp add: ranchu_init_Inr(1) [OF assms])
qed

lemma ranchu_init_fdt_subnodes:
  assumes "ranchu_init env machine n = Inr s'"
  shows "fdt_subnodes s' =
           [''/firmware'', ''/firmware/android'', ''/chosen'', ''/memory'', ''/apb-pclk'']
           @ (if kvm_enabled env then [''/psci''] else [])
           @ [''/timer'', ''/cpus'']
           @ map (\<lambda>cpu. ''/cpus/cpu@'' @ printf_d cpu) (rev [0..n - 1])
           @ [''/intc'', ''/pl011@9000000'', ''/goldfish_fb@9010000'', ''/goldfish_battery@9020000'',
              ''/goldfish_audio@9030000'', ''/goldfish-events@9040000'', ''/android_pipe@a010000'']
           @ map (\<lambda>i. ''/virtio_mmio@'' @ printf_x64 (virtio_base i)) (rev [0..NUM_VIRTIO_TRANSPORTS - 1])"
  by (simp add: fdt_subnodes_created ranchu_init_Inr(1) [OF assms] printf_x64_def
      hex_of_nat.simps hex_digit_def)

lemma ranchu_init_powered_off:
  assumes "ranchu_init env machine n = Inr s'"
  shows "Object_property_set_bool i v ''start-powered-off'' \<in> set (trace s')
           \<longleftrightarrow> v \<and> 0 < i \<and> i < n"
  by (auto simp: set_object_calls ranchu_init_Inr(2) [OF assms] cpu_calls_def)

lemma ranchu_init_cpu_children:
  assumes "ranchu_init env machine n = Inr s'"
  shows "children_of ''/cpus'' s' = map (\<lambda>cpu. ''/cpus/cpu@'' @ printf_d cpu) (rev [0..n - 1])"
  by (simp add: children_of_def ranchu_init_fdt_subnodes [OF assms] filter_const_map)

lemma ranchu_init_virtio_nodes:
  assumes "ranchu_init env machine n = Inr s'"
  shows "filter (\<lambda>path. take 13 path = ''/virtio_mmio@'') (fdt_subnodes s')
           = map (\<lambda>i. ''/virtio_mmio@'' @ printf_x64 (virtio_base i)) (rev [0..NUM_VIRTIO_TRANSPORTS - 1])"
  by (simp add: ranchu_init_fdt_subnodes [OF assms] filter_const_map)

lemma uint_virtio_base:
  assumes "0 \<le> i" and "i \<le> 31"
  shows "uint (virtio_base i) = 0xa000000 + i * 0x200"
proof -
  have b: "0 \<le> 0xa000000 + i * 0x200" "0xa000000 + i * 0x200 < 2 ^ 64"
    using assms by simp_all
  have "virtio_base i = word_of_int (0xa000000 + i * 0x200)"
    by (simp add: virtio_base_def)
  also have "uint (word_of_int (0xa000000 + i * 0x200) :: 64 word)
               = (0xa000000 + i * 0x200) mod 2 ^ 64"
    by (simp only: uint_word_of_int len_num1 len_bit0 mult_numeral_left_semiring_numeral)
       simp
  also have "\<dots> = 0xa000000 + i * 0x200"
    using b by (rule mod_pos_pos_trivial)
  finally show ?thesis .
qed

lemma virtio_base_mono:
  assumes "0 \<le> i" and "i < j" and "j \<le> 31"
  shows "virtio_base i < virtio_base j"
  using assms by (simp add: word_less_def uint_virtio_base)

lemma virtio_bases_ascending:
  "sorted_wrt (<) (map virtio_base [0..31])"
proof -
  have "sorted_wrt (\<lambda>i j. virtio_base i < virtio_base j) [0..31]"
    by (rule sorted_wrt_mono_rel [where P = "(<)"]) (simp_all add: virtio_base_mono)
  then show ?thesis
    by (simp add: sorted_wrt_map)
qed

lemma virtio_bases_descending:
  "sorted_wrt (>) (map virtio_base (rev [0..31]))"
  using virtio_bases_ascending
  by (simp add: rev_map [symmetric] sorted_wrt_rev)

subsection \<open>The RAM limit\<close>

text \<open>
  C6. The RAM slot holds 32212254720 bytes (30 GiB). With exactly that much RAM
  requested, \<open>ranchu_init\<close> passes the check and goes on: however the run ends, the
  first thing it created is the device tree. With one byte more, it ends in
  \<open>exit(1)\<close> with the diagnostic as the only call made, so nothing has been created.
\<close>

theorem ranchu_init_ram_limit:
  "size_m (memmap RANCHU_MEM) = 32212254720
   \<and> (m_ram_size machine = 32212254720 \<longrightarrow>
        (\<exists>rest. created (final_state (ranchu_init env machine n)) = Create_device_tree # rest))
   \<and> (m_ram_size machine = 32212254721 \<longrightarrow>
        ranchu_init env machine n =
          Inl (Exit 1, (board_entry env)\<lparr>vbi_smp_cpus := n,
                 trace := [Error_report ''ranchu: cannot model more than 30GB RAM'']\<rparr>)
        \<and> created (final_state (ranchu_init env machine n)) = [])"
proof -
  have a: "size_m (memmap RANCHU_MEM) = 32212254720"
    by simp
  have b: "\<exists>rest. created (final_state (ranchu_init env machine n)) = Create_device_tree # rest"
    if "m_ram_size machine = 32212254720"
    using that by (intro ranchu_init_ram_ok_first) simp
  have c: "ranchu_init env machine n =
          Inl (Exit 1, (board_entry env)\<lparr>vbi_smp_cpus := n,
                 trace := [Error_report ''ranchu: cannot model more than 30GB RAM'']\<rparr>)"
    if "m_ram_size machine = 32212254721"
    using that by (intro ranchu_init_ram_too_big) simp
  have d: "created (final_state (ranchu_init env machine n)) = []"
    if "m_ram_size machine = 32212254721"
    using c [OF that] by (simp add: final_state_def created_def)
  show ?thesis
    using a b c d by blast
qed

text \<open>
  C6 at concrete inputs, one CPU and the collaborators of \<open>tcg_env\<close>; with 30 GiB the
  whole construction returns.
\<close>

theorem ranchu_init_ram_limit_witness:
  "(\<exists>rest. created (final_state (ranchu_init tcg_env (machine_of_ram 32212254720) 1))
             = Create_device_tree # rest)
   \<and> ranchu_init tcg_env (machine_of_ram 32212254721) 1 =
       Inl (Exit 1, (board_entry tcg_env)\<lparr>vbi_smp_cpus := 1,
              trace := [Error_report ''ranchu: cannot model more than 30GB RAM'']\<rparr>)
   \<and> created (final_state (ranchu_init tcg_env (machine_of_ram 32212254721) 1)) = []
   \<and> (\<exists>s'. ranchu_init tcg_env (machine_of_ram 32212254720) 1 = Inr s')"
  using ranchu_init_ram_limit [of "machine_of_ram 32212254720" tcg_env 1]
    ranchu_init_ram_limit [of "machine_of_ram 32212254721" tcg_env 1]
    tcg_run_succeeds [of 32212254720 1]
  by (simp add: final_state_def created_def)

subsection \<open>A CPU count of 0\<close>



lemma ex_bool_simps:
  "\<exists>b::bool. \<not> b" "\<exists>b::bool. b"
  by blast+










subsection \<open>CPU objects and CPU nodes\<close>

text \<open>
  C8. When \<open>ranchu_init\<close> returns for \<open>n\<close> requested CPUs: the CPU objects were created
  in the order 0, ..., n - 1; \<open>"start-powered-off"\<close> was set on a CPU object exactly
  when its index is greater than 0 (and only ever to true); the nodes added under
  \<open>/cpus\<close> are those of the CPUs n - 1, ..., 0 in this order, so that the node of CPU 0
  is the last one added.
\<close>

theorem secondary_cpus_powered_off_nodes_descending:
  assumes "ranchu_init env machine n = Inr s'"
  shows "cpu_objects s' = [0..n - 1]
     \<and> (\<forall>i v. Object_property_set_bool i v ''start-powered-off'' \<in> set (trace s')
                 \<longleftrightarrow> v \<and> 0 < i \<and> i < n)
     \<and> children_of ''/cpus'' s' = map (\<lambda>cpu. ''/cpus/cpu@'' @ printf_d cpu) (rev [0..n - 1])
     \<and> (0 < n \<longrightarrow> last (children_of ''/cpus'' s') = ''/cpus/cpu@0'')"
proof -
  have "last (children_of ''/cpus'' s') = ''/cpus/cpu@0''" if "0 < n"
    using that
    by (simp add: ranchu_init_cpu_children [OF assms] last_rev_upto printf_d_def
        dec_of_nat.simps hex_digit_def)
  then show ?thesis
    by (simp add: ranchu_init_cpu_objects [OF assms] ranchu_init_powered_off [OF assms]
        ranchu_init_cpu_children [OF assms])
qed

text \<open>C8 for two CPUs, with the collaborators of \<open>tcg_env\<close>.\<close>

theorem secondary_cpus_powered_off_nodes_descending_witness:
  "\<exists>s'. ranchu_init tcg_env (machine_of_ram 0x10000000) 2 = Inr s'
     \<and> cpu_objects s' = [0, 1]
     \<and> Object_property_set_bool 1 True ''start-powered-off'' \<in> set (trace s')
     \<and> Object_property_set_bool 0 True ''start-powered-off'' \<notin> set (trace s')
     \<and> children_of ''/cpus'' s' = [''/cpus/cpu@1'', ''/cpus/cpu@0'']
     \<and> last (children_of ''/cpus'' s') = ''/cpus/cpu@0''"
proof -
  obtain s' where s': "ranchu_init tcg_env (machine_of_ram 0x10000000) 2 = Inr s'"
    using tcg_run_succeeds [of "0x10000000" 2] by auto
  show ?thesis
    using s' secondary_cpus_powered_off_nodes_descending [OF s']
    by (simp add: upto_rec1 printf_d_def dec_of_nat.simps hex_digit_def)
qed

subsection \<open>The transport slots\<close>

text \<open>
  C9. There are 32 transport slots; slot \<open>i\<close> has the base address
  \<open>memmap[RANCHU_MMIO].base + i * memmap[RANCHU_MMIO].size\<close>. The calls of
  \<open>create_virtio_devices\<close> are: the 32 devices for the slots 0, ..., 31, each at its
  base address on interrupt line \<open>irqmap[RANCHU_MMIO] + i\<close>; then the nodes for the
  slots 31, ..., 0, each with its \<open>reg\<close> and \<open>interrupts\<close> properties. Base addresses
  grow strictly with the slot, so devices come in strictly ascending and nodes in
  strictly descending address order. When \<open>ranchu_init\<close> returns, these are all the
  \<open>virtio-mmio\<close> devices and all the \<open>/virtio_mmio@\<close> nodes of the run.
\<close>

theorem virtio_slots_ascending_nodes_descending:
  "NUM_VIRTIO_TRANSPORTS = 32
   \<and> virtio_base i = base (memmap RANCHU_MMIO) + word_of_int i * size_m (memmap RANCHU_MMIO)
   \<and> trace (create_virtio_devices s) =
       trace s
       @ map (\<lambda>i. Sysbus_create_simple ''virtio-mmio'' (virtio_base i) (irqmap RANCHU_MMIO + i)) [0..31]
       @ concat (map (\<lambda>i.
           [Fdt_add_subnode (''/virtio_mmio@'' @ printf_x64 (virtio_base i)),
            Fdt_setprop_string (''/virtio_mmio@'' @ printf_x64 (virtio_base i))
              ''compatible'' ''virtio,mmio'',
            Fdt_setprop_sized_cells (''/virtio_mmio@'' @ printf_x64 (virtio_base i)) ''reg''
              [(2, virtio_base i), (2, size_m (memmap RANCHU_MMIO))],
            Fdt_setprop_cells (''/virtio_mmio@'' @ printf_x64 (virtio_base i)) ''interrupts''
              [GIC_FDT_IRQ_TYPE_SPI, word_of_int (irqmap RANCHU_MMIO + i),
               GIC_FDT_IRQ_FLAGS_EDGE_LO_HI]]) (rev [0..31]))
   \<and> sorted_wrt (<) (map virtio_base [0..31])
   \<and> sorted_wrt (>) (map virtio_base (rev [0..31]))
   \<and> (ranchu_init env machine n = Inr s' \<longrightarrow>
        sysbus_devices ''virtio-mmio'' s' = map (\<lambda>i. (virtio_base i, irqmap RANCHU_MMIO + i)) [0..31]
        \<and> filter (\<lambda>path. take 13 path = ''/virtio_mmio@'') (fdt_subnodes s')
            = map (\<lambda>i. ''/virtio_mmio@'' @ printf_x64 (virtio_base i)) (rev [0..31]))"
proof -
  have n: "NUM_VIRTIO_TRANSPORTS - 1 = 31"
    by (simp add: NUM_VIRTIO_TRANSPORTS_def)
  have t: "trace (create_virtio_devices s) =
       trace s
       @ map (\<lambda>i. Sysbus_create_simple ''virtio-mmio'' (virtio_base i) (irqmap RANCHU_MMIO + i)) [0..31]
       @ concat (map virtio_node_calls (rev [0..31]))"
    unfolding create_virtio_devices_calls n by simp
  have w: "sysbus_devices ''virtio-mmio'' s' = map (\<lambda>i. (virtio_base i, irqmap RANCHU_MMIO + i)) [0..31]
        \<and> filter (\<lambda>path. take 13 path = ''/virtio_mmio@'') (fdt_subnodes s')
            = map (\<lambda>i. ''/virtio_mmio@'' @ printf_x64 (virtio_base i)) (rev [0..31])"
    if "ranchu_init env machine n = Inr s'"
    using ranchu_init_virtio_devices [OF that] ranchu_init_virtio_nodes [OF that]
    unfolding n by simp
  show ?thesis
    using t w virtio_bases_ascending virtio_bases_descending
    unfolding virtio_node_calls_def
    by (simp add: NUM_VIRTIO_TRANSPORTS_def virtio_base_def)
qed

text \<open>C9 on a run with one CPU and the collaborators of \<open>tcg_env\<close>.\<close>

theorem virtio_slots_ascending_nodes_descending_witness:
  "\<exists>s'. ranchu_init tcg_env (machine_of_ram 0x10000000) 1 = Inr s'
     \<and> take 3 (sysbus_devices ''virtio-mmio'' s') = [(0xa000000, 16), (0xa000200, 17), (0xa000400, 18)]
     \<and> last (sysbus_devices ''virtio-mmio'' s') = (0xa003e00, 47)
     \<and> length (sysbus_devices ''virtio-mmio'' s') = 32
     \<and> take 2 (filter (\<lambda>path. take 13 path = ''/virtio_mmio@'') (fdt_subnodes s'))
         = [''/virtio_mmio@a003e00'', ''/virtio_mmio@a003c00'']
     \<and> last (fdt_subnodes s') = ''/virtio_mmio@a000000''"
proof -
  obtain s' where s': "ranchu_init tcg_env (machine_of_ram 0x10000000) 1 = Inr s'"
    using tcg_run_succeeds [of "0x10000000" 1] by auto
  have l: "last (fdt_subnodes s') = ''/virtio_mmio@a000000''"
    by (simp add: ranchu_init_fdt_subnodes [OF s'] NUM_VIRTIO_TRANSPORTS_def upto_rec1
        virtio_base_def printf_x64_def hex_of_nat.simps hex_digit_def)
  show ?thesis
    using s' l virtio_slots_ascending_nodes_descending [of 0 s' tcg_env "machine_of_ram 0x10000000" 1 s']
    by (simp add: upto_rec1 virtio_base_def printf_x64_def hex_of_nat.simps hex_digit_def)
qed

end
